theory Spec2Isabelle
  imports Complex_Main "HOL-Library.Sublist" "HOL-Library.AList"
begin

section \<open>Python values\<close>

text \<open>
  A Python \<open>str\<close> is a sequence of Unicode code points, so a text is a list of
  code points: slicing (\<open>text[:100]\<close>) and the substring test (\<open>word in text\<close>)
  count code points, as Python does. The Cyrillic literals of the source are written
  out as their code points; each constant carries a transliteration.
\<close>

type_synonym ustr = "nat list"

definition asc :: "string \<Rightarrow> ustr" where
  "asc s = map of_char s"

text \<open>
  The analysis results of \<open>yandex_analyzer.py\<close> are plain dictionaries
  (\<open>Dict[str, Any]\<close>), and the remote answer is whatever \<open>json.loads\<close> returns.
  A dictionary keeps its insertion order; assigning to an existing key keeps the key's
  place, assigning to a new key appends it (\<open>AList.update\<close>).
\<close>

datatype pyval =
    PNone
  | PBool bool
  | PInt int
  | PFloat real
  | PStr ustr
  | PList "pyval list"
  | PDict "(ustr \<times> pyval) list"

datatype py_exception =
    UnicodeEncodeError
  | TypeError
  | KeyError
  | IndexError
  | JSONDecodeError
  | Timeout
  | ConnectionError
  | OverflowError
  | OtherException

text \<open>\<open>d.get(k)\<close> on a result; \<open>None\<close> when the value is not a dictionary or lacks the key.\<close>

fun py_lookup :: "pyval \<Rightarrow> ustr \<Rightarrow> pyval option" where
  "py_lookup (PDict d) k = map_of d k"
| "py_lookup _ k = None"

text \<open>Truth value of an object, as \<open>if analysis and ...\<close> tests it.\<close>

fun truthy :: "pyval \<Rightarrow> bool" where
  "truthy PNone = False"
| "truthy (PBool b) = b"
| "truthy (PInt i) = (i \<noteq> 0)"
| "truthy (PFloat x) = (x \<noteq> 0)"
| "truthy (PStr s) = (s \<noteq> [])"
| "truthy (PList xs) = (xs \<noteq> [])"
| "truthy (PDict d) = (d \<noteq> [])"

text \<open>
  \<open>key in container\<close> for a string key: membership among the keys of a dictionary,
  among the elements of a list, substring of a string; any other object is not
  iterable and the test raises \<open>TypeError\<close>.
\<close>

fun py_contains :: "pyval \<Rightarrow> ustr \<Rightarrow> py_exception + bool" where
  "py_contains (PDict d) k = Inr (k \<in> fst ` set d)"
| "py_contains (PList xs) k = Inr (PStr k \<in> set xs)"
| "py_contains (PStr s) k = Inr (sublist k s)"
| "py_contains _ k = Inl TypeError"

text \<open>
  \<open>container[key] = value\<close> for a string key: only a dictionary supports it; a list
  wants integer indices and a string is immutable, both raise \<open>TypeError\<close>.
\<close>

fun py_setitem :: "pyval \<Rightarrow> ustr \<Rightarrow> pyval \<Rightarrow> py_exception + pyval" where
  "py_setitem (PDict d) k v = Inr (PDict (AList.update k v d))"
| "py_setitem _ k v = Inl TypeError"

text \<open>\<open>container[key]\<close> for a string key.\<close>

fun py_getitem :: "pyval \<Rightarrow> ustr \<Rightarrow> py_exception + pyval" where
  "py_getitem (PDict d) k = (case map_of d k of None \<Rightarrow> Inl KeyError | Some v \<Rightarrow> Inr v)"
| "py_getitem _ k = Inl TypeError"

text \<open>
  \<open>container[0]\<close>: the first element of a list or the first character of a string
  (\<open>IndexError\<close> when empty); a dictionary from JSON has string keys only, so the key
  \<open>0\<close> is missing (\<open>KeyError\<close>); other objects are not subscriptable.
\<close>

fun py_getitem0 :: "pyval \<Rightarrow> py_exception + pyval" where
  "py_getitem0 (PList []) = Inl IndexError"
| "py_getitem0 (PList (x # xs)) = Inr x"
| "py_getitem0 (PStr []) = Inl IndexError"
| "py_getitem0 (PStr (c # cs)) = Inr (PStr [c])"
| "py_getitem0 (PDict d) = Inl KeyError"
| "py_getitem0 _ = Inl TypeError"

text \<open>\<open>str(n)\<close> of a count, as the f-strings of the enhanced fallback render it.\<close>

fun py_str_nat :: "nat \<Rightarrow> ustr" where
  "py_str_nat n = (if n < 10 then [48 + n] else py_str_nat (n div 10) @ [48 + n mod 10])"

text \<open>
  The library functions the analyzer calls, taken as parameters: the theorems below hold
  for every choice of them.
  \<^item> \<open>json_loads\<close>: \<open>json.loads\<close>; \<open>None\<close> stands for \<open>JSONDecodeError\<close>;
  \<^item> \<open>md5_hexdigest\<close>: \<open>hashlib.md5(text.encode()).hexdigest()\<close> of an encodable text;
  \<^item> \<open>str_lower\<close>: \<open>str.lower\<close>;
  \<^item> \<open>isoformat\<close>: \<open>datetime.isoformat\<close> of a clock reading.
\<close>

record pylib =
  json_loads :: "ustr \<Rightarrow> pyval option"
  md5_hexdigest :: "ustr \<Rightarrow> ustr"
  str_lower :: "ustr \<Rightarrow> ustr"
  isoformat :: "int \<Rightarrow> ustr"

section \<open>The fallback results\<close>

text \<open>String literals of \<open>_create_basic_fallback\<close> (lines 326-336).\<close>

definition basic_summary_prefix :: ustr where \<comment> \<open>"Bazovaya otsenka: "\<close>
  "basic_summary_prefix =
     [1041, 1072, 1079, 1086, 1074, 1072, 1103, 32, 1086, 1094, 1077, 1085, 1082, 1072, 58, 32]"

definition s_neutral :: ustr where \<comment> \<open>"neytral'nyy" (neutral)\<close>
  "s_neutral = [1085, 1077, 1081, 1090, 1088, 1072, 1083, 1100, 1085, 1099, 1081]"

definition s_positive :: ustr where \<comment> \<open>"pozitivnyy" (positive)\<close>
  "s_positive = [1087, 1086, 1079, 1080, 1090, 1080, 1074, 1085, 1099, 1081]"

definition s_negative :: ustr where \<comment> \<open>"negativnyy" (negative)\<close>
  "s_negative = [1085, 1077, 1075, 1072, 1090, 1080, 1074, 1085, 1099, 1081]"

definition r_medium :: ustr where \<comment> \<open>"sredniy" (medium)\<close>
  "r_medium = [1089, 1088, 1077, 1076, 1085, 1080, 1081]"

definition r_high :: ustr where \<comment> \<open>"vysokiy" (high)\<close>
  "r_high = [1074, 1099, 1089, 1086, 1082, 1080, 1081]"

definition r_low :: ustr where \<comment> \<open>"nizkiy" (low)\<close>
  "r_low = [1085, 1080, 1079, 1082, 1080, 1081]"

definition basic_impact :: ustr where \<comment> \<open>"Trebuetsya dopolnitel'nyy analiz"\<close>
  "basic_impact =
     [1058, 1088, 1077, 1073, 1091, 1077, 1090, 1089, 1103, 32, 1076, 1086, 1087, 1086, 1083,
      1085, 1080, 1090, 1077, 1083, 1100, 1085, 1099, 1081, 32, 1072, 1085, 1072, 1083, 1080,
      1079]"

definition basic_action :: ustr where \<comment> \<open>"Sledit' za razvitiem situatsii"\<close>
  "basic_action =
     [1057, 1083, 1077, 1076, 1080, 1090, 1100, 32, 1079, 1072, 32, 1088, 1072, 1079, 1074, 1080,
      1090, 1080, 1077, 1084, 32, 1089, 1080, 1090, 1091, 1072, 1094, 1080, 1080]"

text \<open>\<open>mentioned_tickers if mentioned_tickers else ["RUB"]\<close>\<close>

definition affected_assets :: "ustr list \<Rightarrow> pyval" where
  "affected_assets mentioned_tickers =
     PList (map PStr (if mentioned_tickers \<noteq> [] then mentioned_tickers else [asc ''RUB'']))"

definition create_basic_fallback :: "ustr \<Rightarrow> ustr list \<Rightarrow> pyval" where
  "create_basic_fallback news_text mentioned_tickers = PDict
     [(asc ''summary'', PStr (basic_summary_prefix @ take 100 news_text @ asc ''...'')),
      (asc ''sentiment'', PStr s_neutral),
      (asc ''risk_level'', PStr r_medium),
      (asc ''affected_assets'', affected_assets mentioned_tickers),
      (asc ''market_impact'', PStr basic_impact),
      (asc ''short_term_action'', PStr basic_action),
      (asc ''is_fallback'', PBool True)]"

text \<open>Word lists and string literals of \<open>_create_enhanced_fallback\<close> (lines 338-395).\<close>

definition positive_words :: "ustr list" where
  \<comment> \<open>"rost", "vyshe", "pribyl'", "uspekh", "rekord", "povyshenie"\<close>
  "positive_words =
     [[1088, 1086, 1089, 1090],
      [1074, 1099, 1096, 1077],
      [1087, 1088, 1080, 1073, 1099, 1083, 1100],
      [1091, 1089, 1087, 1077, 1093],
      [1088, 1077, 1082, 1086, 1088, 1076],
      [1087, 1086, 1074, 1099, 1096, 1077, 1085, 1080, 1077]]"

definition negative_words :: "ustr list" where
  \<comment> \<open>"padenie", "nizhe", "ubytok", "krizis", "obval", "snizhenie"\<close>
  "negative_words =
     [[1087, 1072, 1076, 1077, 1085, 1080, 1077],
      [1085, 1080, 1078, 1077],
      [1091, 1073, 1099, 1090, 1086, 1082],
      [1082, 1088, 1080, 1079, 1080, 1089],
      [1086, 1073, 1074, 1072, 1083],
      [1089, 1085, 1080, 1078, 1077, 1085, 1080, 1077]]"

definition risk_words :: "ustr list" where
  \<comment> \<open>"voyna", "sanktsii", "krizis", "defolt", "bankrotstvo"\<close>
  "risk_words =
     [[1074, 1086, 1081, 1085, 1072],
      [1089, 1072, 1085, 1082, 1094, 1080, 1080],
      [1082, 1088, 1080, 1079, 1080, 1089],
      [1076, 1077, 1092, 1086, 1083, 1090],
      [1073, 1072, 1085, 1082, 1088, 1086, 1090, 1089, 1090, 1074, 1086]]"

definition enh_summary_prefix :: ustr where \<comment> \<open>"Analiz na osnove klyuchevykh slov: "\<close>
  "enh_summary_prefix =
     [1040, 1085, 1072, 1083, 1080, 1079, 32, 1085, 1072, 32, 1086, 1089, 1085, 1086, 1074, 1077,
      32, 1082, 1083, 1102, 1095, 1077, 1074, 1099, 1093, 32, 1089, 1083, 1086, 1074, 58, 32]"

definition t_found :: ustr where \<comment> \<open>"Naydeno "\<close>
  "t_found = [1053, 1072, 1081, 1076, 1077, 1085, 1086, 32]"

definition t_positive_and :: ustr where \<comment> \<open>" pozitivnykh i "\<close>
  "t_positive_and = [32, 1087, 1086, 1079, 1080, 1090, 1080, 1074, 1085, 1099, 1093, 32, 1080, 32]"

definition t_negative_signals :: ustr where \<comment> \<open>" negativnykh signalov"\<close>
  "t_negative_signals =
     [32, 1085, 1077, 1075, 1072, 1090, 1080, 1074, 1085, 1099, 1093, 32, 1089, 1080, 1075, 1085,
      1072, 1083, 1086, 1074]"

definition t_detected :: ustr where \<comment> \<open>"Obnaruzheno "\<close>
  "t_detected = [1054, 1073, 1085, 1072, 1088, 1091, 1078, 1077, 1085, 1086, 32]"

definition t_risk_words :: ustr where \<comment> \<open>" slov vysokogo riska"\<close>
  "t_risk_words =
     [32, 1089, 1083, 1086, 1074, 32, 1074, 1099, 1089, 1086, 1082, 1086, 1075, 1086, 32, 1088,
      1080, 1089, 1082, 1072]"

definition enh_impact :: ustr where \<comment> \<open>"Lokal'noe vliyanie na upomyanutye aktivy"\<close>
  "enh_impact =
     [1051, 1086, 1082, 1072, 1083, 1100, 1085, 1086, 1077, 32, 1074, 1083, 1080, 1103, 1085,
      1080, 1077, 32, 1085, 1072, 32, 1091, 1087, 1086, 1084, 1103, 1085, 1091, 1090, 1099, 1077,
      32, 1072, 1082, 1090, 1080, 1074, 1099]"

definition t_expected :: ustr where \<comment> \<open>"Ozhidaetsya "\<close>
  "t_expected = [1054, 1078, 1080, 1076, 1072, 1077, 1090, 1089, 1103, 32]"

definition t_dynamics :: ustr where \<comment> \<open>" dinamika"\<close>
  "t_dynamics = [32, 1076, 1080, 1085, 1072, 1084, 1080, 1082, 1072]"

definition action_positive :: ustr where \<comment> \<open>"Rassmotret' vozmozhnost' uvelicheniya pozitsiy"\<close>
  "action_positive =
     [1056, 1072, 1089, 1089, 1084, 1086, 1090, 1088, 1077, 1090, 1100, 32, 1074, 1086, 1079,
      1084, 1086, 1078, 1085, 1086, 1089, 1090, 1100, 32, 1091, 1074, 1077, 1083, 1080, 1095,
      1077, 1085, 1080, 1103, 32, 1087, 1086, 1079, 1080, 1094, 1080, 1081]"

definition action_negative :: ustr where
  \<comment> \<open>"Rekomenduetsya ostorozhnost', vozmozhna korrektsiya"\<close>
  "action_negative =
     [1056, 1077, 1082, 1086, 1084, 1077, 1085, 1076, 1091, 1077, 1090, 1089, 1103, 32, 1086,
      1089, 1090, 1086, 1088, 1086, 1078, 1085, 1086, 1089, 1090, 1100, 44, 32, 1074, 1086, 1079,
      1084, 1086, 1078, 1085, 1072, 32, 1082, 1086, 1088, 1088, 1077, 1082, 1094, 1080, 1103]"

definition action_neutral :: ustr where
  \<comment> \<open>"Sokhranyat' tekushchie pozitsii, sledit' za novostyami"\<close>
  "action_neutral =
     [1057, 1086, 1093, 1088, 1072, 1085, 1103, 1090, 1100, 32, 1090, 1077, 1082, 1091, 1097,
      1080, 1077, 32, 1087, 1086, 1079, 1080, 1094, 1080, 1080, 44, 32, 1089, 1083, 1077, 1076,
      1080, 1090, 1100, 32, 1079, 1072, 32, 1085, 1086, 1074, 1086, 1089, 1090, 1103, 1084, 1080]"

definition t_limited :: ustr where \<comment> \<open>"Ogranichennost' analiza"\<close>
  "t_limited =
     [1054, 1075, 1088, 1072, 1085, 1080, 1095, 1077, 1085, 1085, 1086, 1089, 1090, 1100, 32,
      1072, 1085, 1072, 1083, 1080, 1079, 1072]"

definition t_deeper :: ustr where \<comment> \<open>"Trebuetsya bolee glubokiy analiz"\<close>
  "t_deeper =
     [1058, 1088, 1077, 1073, 1091, 1077, 1090, 1089, 1103, 32, 1073, 1086, 1083, 1077, 1077, 32,
      1075, 1083, 1091, 1073, 1086, 1082, 1080, 1081, 32, 1072, 1085, 1072, 1083, 1080, 1079]"

text \<open>\<open>sum(1 for word in words if word in text_lower)\<close>: each listed word counts once.\<close>

definition count_words :: "ustr list \<Rightarrow> ustr \<Rightarrow> nat" where
  "count_words words text_lower = length (filter (\<lambda>word. sublist word text_lower) words)"

definition sentiment_of :: "nat \<Rightarrow> nat \<Rightarrow> ustr \<times> real" where
  "sentiment_of positive_count negative_count =
     (if positive_count > negative_count then (s_positive, 0.5)
      else if negative_count > positive_count then (s_negative, - 0.5)
      else (s_neutral, 0.0))"

definition risk_level_of :: "nat \<Rightarrow> ustr" where
  "risk_level_of risk_count =
     (if risk_count \<ge> 2 then r_high
      else if risk_count = 1 then r_medium
      else r_low)"

definition action_of :: "ustr \<Rightarrow> ustr" where
  "action_of sentiment =
     (if sentiment = s_positive then action_positive
      else if sentiment = s_negative then action_negative
      else action_neutral)"

text \<open>The clock reading \<open>now\<close> is what \<open>datetime.now()\<close> returns at line 393.\<close>

definition create_enhanced_fallback :: "pylib \<Rightarrow> int \<Rightarrow> ustr \<Rightarrow> ustr list \<Rightarrow> pyval" where
  "create_enhanced_fallback lib now news_text mentioned_tickers =
     (let text_lower = str_lower lib news_text;
          positive_count = count_words positive_words text_lower;
          negative_count = count_words negative_words text_lower;
          (sentiment, sentiment_score) = sentiment_of positive_count negative_count;
          risk_count = count_words risk_words text_lower;
          risk_level = risk_level_of risk_count;
          action = action_of sentiment
      in PDict
        [(asc ''summary'', PStr (enh_summary_prefix @ take 120 news_text @ asc ''...'')),
         (asc ''detailed_analysis'',
            PStr (t_found @ py_str_nat positive_count @ t_positive_and
                  @ py_str_nat negative_count @ t_negative_signals)),
         (asc ''sentiment'', PStr sentiment),
         (asc ''sentiment_score'', PFloat sentiment_score),
         (asc ''risk_level'', PStr risk_level),
         (asc ''risk_explanation'', PStr (t_detected @ py_str_nat risk_count @ t_risk_words)),
         (asc ''affected_assets'', affected_assets mentioned_tickers),
         (asc ''market_impact'', PStr enh_impact),
         (asc ''short_term_forecast'', PStr (t_expected @ sentiment @ t_dynamics)),
         (asc ''recommended_actions'', PStr action),
         (asc ''key_risks'', PList (if risk_level \<noteq> r_low then [PStr t_limited] else [])),
         (asc ''opportunities'', PList [PStr t_deeper]),
         (asc ''confidence'', PFloat 0.6),
         (asc ''analyzed_at'', PStr (isoformat lib now)),
         (asc ''is_fallback'', PBool True)])"

section \<open>The analyzer and its surroundings\<close>

text \<open>
  Clock readings (\<open>datetime.now()\<close>) are integers counting microseconds, the resolution
  of \<open>datetime\<close>, from 1 January 1970, 00:00; \<open>timedelta(days=n)\<close> is \<open>n * day\<close>.
\<close>

definition second :: int where
  "second = 1000000"

definition day :: int where
  "day = 86400 * second"

text \<open>
  \<open>datetime.min\<close> is 1 January of the year 1, 719162 days before 1 January 1970, and
  \<open>datetime.max\<close> is the last microsecond of the year 9999. Subtracting a \<open>timedelta\<close>
  from a \<open>datetime\<close> raises \<open>OverflowError\<close> when the result is outside these bounds.
  The clock of a running system reads well after \<open>datetime.min\<close>, so the subtractions
  of one day and of seven days from \<open>datetime.now()\<close> are taken to succeed; the only
  subtraction of a number of days that the caller chooses is in \<open>clear_cache\<close>.
\<close>

definition datetime_min :: int where
  "datetime_min = - 719162 * day"

definition datetime_max :: int where
  "datetime_max = 2932897 * day - 1"

record cache_entry =
  timestamp :: int
  data :: pyval

text \<open>The fields of \<open>YandexGPTAnalyzer\<close> that the operations read or write.\<close>

record analyzer =
  api_key :: ustr
  folder_id :: ustr
  cloud_id :: ustr
  cache :: "ustr \<rightharpoonup> cache_entry"
  request_count :: nat
  cache_enabled :: bool

text \<open>
  What \<open>requests.post\<close> does with the \<open>n\<close>-th request: it raises, or it returns a response
  with a status code and the outcome of \<open>response.json()\<close> (\<open>None\<close> when that raises).
\<close>

datatype http_outcome =
    RaisesTimeout
  | RaisesConnectionError
  | RaisesOther
  | Response nat "pyval option"

datatype event = Sleep nat | Post

text \<open>
  Everything outside the analyzer object: the clock, the remote service (the outcome and
  the duration of each request, by its number), the cache file
  \<open>cache/yandex_gpt_cache.pkl\<close> (\<open>None\<close> while it does not exist) and whether it can be
  written, and a log of the calls of \<open>time.sleep\<close> (in seconds) and \<open>requests.post\<close>.
  Time passes while the process sleeps and while a request is under way.
\<close>

record world =
  clock :: int
  server :: "nat \<Rightarrow> http_outcome"
  latency :: "nat \<Rightarrow> nat"
  posts :: nat
  disk :: "(ustr \<rightharpoonup> cache_entry) option"
  disk_writable :: bool
  trace :: "event list"

definition sleep :: "nat \<Rightarrow> world \<Rightarrow> world" where
  "sleep n w = w\<lparr>clock := clock w + int n * second, trace := trace w @ [Sleep n]\<rparr>"

definition http_post :: "world \<Rightarrow> http_outcome \<times> world" where
  "http_post w =
     (server w (posts w),
      w\<lparr>clock := clock w + int (latency w (posts w)), posts := posts w + 1,
        trace := trace w @ [Post]\<rparr>)"

subsection \<open>Cache key (lines 82-85)\<close>

text \<open>
  \<open>text.encode()\<close> encodes to UTF-8 and raises \<open>UnicodeEncodeError\<close> on a surrogate
  code point (U+D800 to U+DFFF), which a Python \<open>str\<close> may hold.
\<close>

definition utf8_encodable :: "ustr \<Rightarrow> bool" where
  "utf8_encodable text = list_all (\<lambda>c. \<not> (55296 \<le> c \<and> c \<le> 57343)) text"

definition get_cache_key :: "pylib \<Rightarrow> ustr \<Rightarrow> ustr \<Rightarrow> py_exception + ustr" where
  "get_cache_key lib text analysis_type =
     (if utf8_encodable text then Inr (analysis_type @ asc ''_'' @ md5_hexdigest lib text)
      else Inl UnicodeEncodeError)"

subsection \<open>Saving and clearing the cache (lines 98-115, 452-474)\<close>

text \<open>
  The loop of \<open>_save_cache\<close> deletes every key whose timestamp is before \<open>week_ago\<close>.
\<close>

definition prune :: "int \<Rightarrow> (ustr \<rightharpoonup> cache_entry) \<Rightarrow> (ustr \<rightharpoonup> cache_entry)" where
  "prune cutoff c =
     (\<lambda>key. case c key of
        None \<Rightarrow> None
      | Some e \<Rightarrow> if timestamp e < cutoff then None else Some e)"

text \<open>
  A failing \<open>open\<close> or \<open>pickle.dump\<close> is caught and logged; the entries deleted before
  it stay deleted in memory. A failed write is modelled as leaving the file as it was.
\<close>

definition save_cache :: "world \<Rightarrow> analyzer \<Rightarrow> world \<times> analyzer" where
  "save_cache w an =
     (if \<not> cache_enabled an then (w, an)
      else
        let week_ago = clock w - 7 * day;
            an' = an\<lparr>cache := prune week_ago (cache an)\<rparr>
        in if disk_writable w then (w\<lparr>disk := Some (cache an')\<rparr>, an') else (w, an'))"

text \<open>
  \<open>if older_than_days:\<close> is false for \<open>None\<close> and for \<open>0\<close>. Line 455 computes the cutoff
  outside any \<open>try\<close>: when it is not a \<open>datetime\<close>, \<open>clear_cache\<close> raises
  \<open>OverflowError\<close> before it has changed anything. Otherwise it deletes the entries
  older than the cutoff, or all entries, calls \<open>_save_cache\<close> and returns \<open>None\<close>.
\<close>

definition clear_cache ::
  "int option \<Rightarrow> world \<Rightarrow> analyzer \<Rightarrow> (py_exception + pyval) \<times> world \<times> analyzer"
where
  "clear_cache older_than_days w an =
     (case older_than_days of
        Some n \<Rightarrow>
          if n \<noteq> 0 then
            let cutoff = clock w - n * day
            in if cutoff < datetime_min \<or> datetime_max < cutoff then (Inl OverflowError, w, an)
               else (Inr PNone, save_cache w (an\<lparr>cache := prune cutoff (cache an)\<rparr>))
          else (Inr PNone, save_cache w (an\<lparr>cache := Map.empty\<rparr>))
      | None \<Rightarrow> (Inr PNone, save_cache w (an\<lparr>cache := Map.empty\<rparr>)))"

definition enable_cache :: "bool \<Rightarrow> analyzer \<Rightarrow> analyzer" where
  "enable_cache enable an = an\<lparr>cache_enabled := enable\<rparr>"

subsection \<open>Reading and writing one entry (lines 140-147, 246-252)\<close>

definition cache_get :: "analyzer \<Rightarrow> ustr \<Rightarrow> bool \<Rightarrow> int \<Rightarrow> pyval option" where
  "cache_get an cache_key use_cache now =
     (if use_cache \<and> cache_enabled an then
        (case cache an cache_key of
           None \<Rightarrow> None
         | Some cached \<Rightarrow> if now - timestamp cached < 1 * day then Some (data cached) else None)
      else None)"

definition cache_put :: "world \<Rightarrow> analyzer \<Rightarrow> ustr \<Rightarrow> bool \<Rightarrow> pyval \<Rightarrow> world \<times> analyzer" where
  "cache_put w an cache_key use_cache analysis =
     (if use_cache \<and> cache_enabled an then
        save_cache w
          (an\<lparr>cache := (cache an)(cache_key \<mapsto> \<lparr>timestamp = clock w, data = analysis\<rparr>)\<rparr>)
      else (w, an))"

section \<open>Extracting JSON from the answer (lines 296-324)\<close>

text \<open>\<open>text.find(pat)\<close>: the index of the first occurrence, \<open>None\<close> for \<open>-1\<close>.\<close>

fun find_sub :: "ustr \<Rightarrow> ustr \<Rightarrow> nat option" where
  "find_sub pat [] = (if pat = [] then Some 0 else None)"
| "find_sub pat (c # cs) =
     (if prefix pat (c # cs) then Some 0 else map_option Suc (find_sub pat cs))"

text \<open>\<open>text.rfind(pat)\<close>: the index of the last occurrence.\<close>

definition rfind_sub :: "ustr \<Rightarrow> ustr \<Rightarrow> nat option" where
  "rfind_sub pat text =
     (case find_sub (rev pat) (rev text) of
        None \<Rightarrow> None
      | Some i \<Rightarrow> Some (length text - i - length pat))"

text \<open>
  The three regular expressions of \<open>json_patterns\<close>, searched with \<open>re.DOTALL\<close>:
  \<^item> \<open>Fenced opener\<close> is \<open>opener(.*?)\n```\<close>: the search starts at the first occurrence of
    the opener, and the lazy group ends at the first closing fence after it (when the
    first opener has no closing fence after it, no later one has);
  \<^item> \<open>Braces\<close> is \<open>({.*})\<close>: from the first opening brace to the last closing brace of the
    text, when that comes later.
  \<open>re_search\<close> returns \<open>match.group(1)\<close>, \<open>None\<close> when there is no match.
\<close>

datatype pattern = Fenced ustr | Braces

definition backticks :: ustr where
  "backticks = [96, 96, 96]"

definition fence_close :: ustr where
  "fence_close = [10] @ backticks"

definition json_patterns :: "pattern list" where
  "json_patterns =
     [Fenced (backticks @ asc ''json'' @ [10]),
      Fenced (backticks @ [10]),
      Braces]"

fun re_search :: "pattern \<Rightarrow> ustr \<Rightarrow> ustr option" where
  "re_search (Fenced opener) text =
     (case find_sub opener text of
        None \<Rightarrow> None
      | Some i \<Rightarrow>
          let rest = drop (i + length opener) text
          in (case find_sub fence_close rest of
                None \<Rightarrow> None
              | Some j \<Rightarrow> Some (take j rest)))"
| "re_search Braces text =
     (case find_sub (asc ''{'') text of
        None \<Rightarrow> None
      | Some i \<Rightarrow>
          (case rfind_sub (asc ''}'') text of
             None \<Rightarrow> None
           | Some j \<Rightarrow> if i < j then Some (take (j + 1 - i) (drop i text)) else None))"

definition loads :: "pylib \<Rightarrow> ustr \<Rightarrow> py_exception + pyval" where
  "loads lib json_str =
     (case json_loads lib json_str of None \<Rightarrow> Inl JSONDecodeError | Some v \<Rightarrow> Inr v)"

text \<open>
  The loop over the patterns: the first pattern that matches returns
  \<open>json.loads(match.group(1))\<close>, whatever that does; \<open>None\<close> when the loop ends
  without a match.
\<close>

fun search_patterns :: "pylib \<Rightarrow> pattern list \<Rightarrow> ustr \<Rightarrow> (py_exception + pyval) option" where
  "search_patterns lib [] text = None"
| "search_patterns lib (p # ps) text =
     (case re_search p text of
        Some json_str \<Rightarrow> Some (loads lib json_str)
      | None \<Rightarrow> search_patterns lib ps text)"

text \<open>The search by hand after the loop (lines 312-317); without a result the function
  falls through to \<open>return None\<close>.\<close>

definition search_by_hand :: "pylib \<Rightarrow> ustr \<Rightarrow> py_exception + pyval" where
  "search_by_hand lib text =
     (case (find_sub (asc ''{'') text, rfind_sub (asc ''}'') text) of
        (Some start, Some end) \<Rightarrow>
          if end > start then loads lib (take (end + 1 - start) (drop start text))
          else Inr PNone
      | _ \<Rightarrow> Inr PNone)"

text \<open>
  The whole body is inside one \<open>try\<close>: an exception of \<open>json.loads\<close> or of \<open>re.search\<close>
  (\<open>TypeError\<close> when the answer is not a string) is logged and the function returns
  \<open>None\<close>.
\<close>

definition extract_json_from_response :: "pylib \<Rightarrow> pyval \<Rightarrow> pyval" where
  "extract_json_from_response lib ai_text =
     (case ai_text of
        PStr text \<Rightarrow>
          (case (case search_patterns lib json_patterns text of
                   Some r \<Rightarrow> r
                 | None \<Rightarrow> search_by_hand lib text) of
             Inl e \<Rightarrow> PNone
           | Inr v \<Rightarrow> v)
      | _ \<Rightarrow> PNone)"

section \<open>\<open>analyze_news\<close> (lines 117-294)\<close>

text \<open>\<open>result["result"]["alternatives"][0]["message"]["text"]\<close>\<close>

definition completion_text :: "pyval \<Rightarrow> py_exception + pyval" where
  "completion_text result =
     (case py_getitem result (asc ''result'') of Inl e \<Rightarrow> Inl e | Inr r1 \<Rightarrow>
      case py_getitem r1 (asc ''alternatives'') of Inl e \<Rightarrow> Inl e | Inr r2 \<Rightarrow>
      case py_getitem0 r2 of Inl e \<Rightarrow> Inl e | Inr r3 \<Rightarrow>
      case py_getitem r3 (asc ''message'') of Inl e \<Rightarrow> Inl e | Inr r4 \<Rightarrow>
      py_getitem r4 (asc ''text''))"

text \<open>\<open>analysis and "summary" in analysis\<close>\<close>

definition usable :: "pyval \<Rightarrow> py_exception + bool" where
  "usable analysis =
     (if truthy analysis then py_contains analysis (asc ''summary'') else Inr False)"

text \<open>Lines 242-244.\<close>

definition add_metadata :: "pylib \<Rightarrow> int \<Rightarrow> ustr \<Rightarrow> pyval \<Rightarrow> py_exception + pyval" where
  "add_metadata lib now news_text analysis =
     (case py_setitem analysis (asc ''analyzed_at'') (PStr (isoformat lib now)) of
        Inl e \<Rightarrow> Inl e
      | Inr a1 \<Rightarrow>
     (case py_setitem a1 (asc ''text_hash'') (PStr (take 8 (md5_hexdigest lib news_text))) of
        Inl e \<Rightarrow> Inl e
      | Inr a2 \<Rightarrow> py_setitem a2 (asc ''is_fallback'') (PBool False)))"

type_synonym outcome = "(py_exception + pyval) \<times> world \<times> analyzer"

text \<open>
  The branch for status 200 (lines 233-258). \<open>Inl\<close> is an exception raised inside the
  \<open>try\<close> of \<open>analyze_news\<close>, on its way to the handlers.
\<close>

definition handle_200 ::
  "pylib \<Rightarrow> world \<Rightarrow> analyzer \<Rightarrow> ustr \<Rightarrow> ustr list \<Rightarrow> bool \<Rightarrow> ustr \<Rightarrow> pyval option \<Rightarrow> outcome"
where
  "handle_200 lib w an news_text mentioned_tickers use_cache cache_key body =
     (case body of
        None \<Rightarrow> (Inl OtherException, w, an)
      | Some result \<Rightarrow>
          (case completion_text result of
             Inl e \<Rightarrow> (Inl e, w, an)
           | Inr ai_text \<Rightarrow>
               let analysis = extract_json_from_response lib ai_text
               in (case usable analysis of
                     Inl e \<Rightarrow> (Inl e, w, an)
                   | Inr ok \<Rightarrow>
                       if ok then
                         (case add_metadata lib (clock w) news_text analysis of
                            Inl e \<Rightarrow> (Inl e, w, an)
                          | Inr analysis' \<Rightarrow>
                              let (w', an') = cache_put w an cache_key use_cache analysis'
                              in (Inr analysis', w', an'))
                       else
                         (Inr (create_enhanced_fallback lib (clock w) news_text
                                 mentioned_tickers), w, an))))"

text \<open>
  The three \<open>except\<close> clauses of \<open>analyze_news\<close> (lines 270-280): each returns the
  enhanced fallback.
\<close>

fun recover :: "pylib \<Rightarrow> ustr \<Rightarrow> ustr list \<Rightarrow> outcome \<Rightarrow> outcome" where
  "recover lib news_text mentioned_tickers (Inl e, w, an) =
     (Inr (create_enhanced_fallback lib (clock w) news_text mentioned_tickers), w, an)"
| "recover lib news_text mentioned_tickers (Inr r, w, an) = (Inr r, w, an)"

text \<open>
  Lines 216-229: the request counter goes up, every fifth request waits a second
  first, then the request is posted.
\<close>

definition send_request :: "world \<Rightarrow> analyzer \<Rightarrow> http_outcome \<times> world \<times> analyzer" where
  "send_request w an =
     (let an1 = an\<lparr>request_count := request_count an + 1\<rparr>;
          w1 = (if request_count an1 mod 5 = 0 then sleep 1 w else w);
          (response, w2) = http_post w1
      in (response, w2, an1))"

text \<open>
  \<open>analyze_news\<close> and \<open>_analyze_with_retry\<close> call each other without a bound of their
  own; what bounds the nesting is the recursion limit of the interpreter. Both functions
  carry \<open>depth\<close>, the number of nested calls of \<open>analyze_news\<close> that the limit still
  allows. \<open>None\<close> for \<open>analyze_news\<close> means that the call itself is beyond the limit:
  it raises \<open>RecursionError\<close> where it is made and changes nothing. When that call is
  the one in the loop of \<open>_analyze_with_retry\<close> (line 290), the \<open>except\<close> of line 291
  catches the exception and the loop goes on, so \<open>_analyze_with_retry\<close> always returns
  and the case \<open>None\<close> of its result in \<open>analyze_news\<close> is never taken.
  The limit is taken to strike at a call of \<open>analyze_news\<close>; wherever else it strikes
  below \<open>analyze_news\<close>, it does so inside a \<open>try\<close> whose handler returns the enhanced
  fallback. The list of \<open>_analyze_with_retry\<close> is what is left of \<open>range(retries)\<close>.
\<close>

fun analyze_news ::
  "pylib \<Rightarrow> nat \<Rightarrow> world \<Rightarrow> analyzer \<Rightarrow> ustr \<Rightarrow> ustr list \<Rightarrow> bool \<Rightarrow> outcome option"
and analyze_with_retry ::
  "pylib \<Rightarrow> nat \<Rightarrow> nat list \<Rightarrow> world \<Rightarrow> analyzer \<Rightarrow> ustr \<Rightarrow> ustr list \<Rightarrow> outcome option"
where
  "analyze_news lib 0 w an news_text mentioned_tickers use_cache = None"
| "analyze_news lib (Suc depth) w an news_text mentioned_tickers use_cache =
     (if api_key an = [] then
        Some (Inr (create_basic_fallback news_text mentioned_tickers), w, an)
      else
        (case get_cache_key lib news_text (asc ''news'') of
           Inl e \<Rightarrow> Some (Inl e, w, an)
         | Inr cache_key \<Rightarrow>
             (case cache_get an cache_key use_cache (clock w) of
                Some cached \<Rightarrow> Some (Inr cached, w, an)
              | None \<Rightarrow>
                  let (response, w2, an1) = send_request w an
                  in (case
                        (case response of
                           Response status_code body \<Rightarrow>
                             if status_code = 200 then
                               Some (handle_200 lib w2 an1 news_text mentioned_tickers
                                       use_cache cache_key body)
                             else if status_code = 429 then
                               analyze_with_retry lib depth [0..<2] (sleep 2 w2) an1
                                 news_text mentioned_tickers
                             else
                               Some (Inr (create_enhanced_fallback lib (clock w2) news_text
                                            mentioned_tickers), w2, an1)
                         | RaisesTimeout \<Rightarrow> Some (Inl Timeout, w2, an1)
                         | RaisesConnectionError \<Rightarrow> Some (Inl ConnectionError, w2, an1)
                         | RaisesOther \<Rightarrow> Some (Inl OtherException, w2, an1))
                      of
                        None \<Rightarrow> None
                      | Some r \<Rightarrow> Some (recover lib news_text mentioned_tickers r)))))"
| "analyze_with_retry lib depth [] w an news_text mentioned_tickers =
     Some (Inr (create_enhanced_fallback lib (clock w) news_text mentioned_tickers), w, an)"
| "analyze_with_retry lib depth (attempt # rest) w an news_text mentioned_tickers =
     (case analyze_news lib depth (sleep (2 ^ attempt) w) an news_text mentioned_tickers False of
        None \<Rightarrow>
          analyze_with_retry lib depth rest (sleep (2 ^ attempt) w) an news_text mentioned_tickers
      | Some (Inr r, w', an') \<Rightarrow> Some (Inr r, w', an')
      | Some (Inl e, w', an') \<Rightarrow> analyze_with_retry lib depth rest w' an' news_text mentioned_tickers)"

section \<open>Properties of states and results\<close>

text \<open>Every cached entry holds a result marked as not a fallback.\<close>

definition cache_inv :: "analyzer \<Rightarrow> bool" where
  "cache_inv an =
     (\<forall>key e. cache an key = Some e \<longrightarrow>
        py_lookup (data e) (asc ''is_fallback'') = Some (PBool False))"


text \<open>
  What every call leaves as it was, between the state before (\<open>w\<close>, \<open>an\<close>) and after
  (\<open>w'\<close>, \<open>an'\<close>): the configuration of the analyzer and the behaviour of the world;
  requests and time only go up; the property of the cache stays; a call made with
  \<open>use_cache = False\<close> changes neither the cache nor the cache file; and the cache file
  changes only when caching is enabled and the file can be written.
\<close>

definition step_ok :: "bool \<Rightarrow> world \<Rightarrow> analyzer \<Rightarrow> world \<Rightarrow> analyzer \<Rightarrow> bool" where
  "step_ok use_cache w an w' an' =
     (api_key an' = api_key an \<and> cache_enabled an' = cache_enabled an
      \<and> server w' = server w \<and> latency w' = latency w \<and> disk_writable w' = disk_writable w
      \<and> posts w \<le> posts w' \<and> clock w \<le> clock w'
      \<and> (cache_inv an \<longrightarrow> cache_inv an')
      \<and> (\<not> use_cache \<longrightarrow> cache an' = cache an \<and> disk w' = disk w)
      \<and> (disk w' \<noteq> disk w \<longrightarrow> cache_enabled an \<and> disk_writable w))"

text \<open>A result that the remote service gave, or an enhanced fallback.\<close>

definition remote_or_enhanced :: "pylib \<Rightarrow> ustr \<Rightarrow> ustr list \<Rightarrow> pyval \<Rightarrow> bool" where
  "remote_or_enhanced lib news_text mentioned_tickers r =
     (py_lookup r (asc ''is_fallback'') = Some (PBool False)
      \<or> (\<exists>now. r = create_enhanced_fallback lib now news_text mentioned_tickers))"

definition result_ok ::
  "pylib \<Rightarrow> ustr \<Rightarrow> ustr list \<Rightarrow> analyzer \<Rightarrow> py_exception + pyval \<Rightarrow> bool" where
  "result_ok lib news_text mentioned_tickers an res =
     ((utf8_encodable news_text \<longrightarrow> (\<exists>r. res = Inr r))
      \<and> (\<forall>r. res = Inr r \<longrightarrow> api_key an \<noteq> [] \<longrightarrow> cache_inv an \<longrightarrow>
            remote_or_enhanced lib news_text mentioned_tickers r))"

text \<open>
  The count that claim C8 words, "counting occurrences" of the risk words: every place
  of the text at which a listed word starts counts. It is here to be compared with
  \<open>count_words\<close>, the count of the code.
\<close>

fun spec_occurrences :: "ustr \<Rightarrow> ustr \<Rightarrow> nat" where
  "spec_occurrences word [] = 0"
| "spec_occurrences word (c # cs) =
     (if prefix word (c # cs) then 1 else 0) + spec_occurrences word cs"

definition spec_risk_count :: "ustr \<Rightarrow> nat" where
  "spec_risk_count text_lower =
     sum_list (map (\<lambda>word. spec_occurrences word text_lower) risk_words)"

section \<open>Stand-ins for the library, for evaluating at concrete inputs\<close>

text \<open>
  \<open>lower_basic\<close> lowers the capital letters of Basic Latin and of the Cyrillic block and
  leaves every other code point alone, as \<open>str.lower\<close> does on texts in these two
  alphabets.
\<close>

definition lower_basic :: "ustr \<Rightarrow> ustr" where
  "lower_basic text =
     map (\<lambda>c. if (65 \<le> c \<and> c \<le> 90) \<or> (1040 \<le> c \<and> c \<le> 1071) then c + 32
               else if 1024 \<le> c \<and> c \<le> 1039 then c + 80
               else c) text"

text \<open>
  \<open>loads_basic\<close> agrees with \<open>json.loads\<close> on the three strings the examples below feed
  it: \<open>{"summary": "ok"}\<close> is an object with one member, \<open>not json\<close> is not JSON, and
  neither is anything else the examples pass.
\<close>

definition summary_ok_json :: ustr where
  "summary_ok_json = asc ''{'' @ [34] @ asc ''summary'' @ [34] @ asc '': '' @ [34] @ asc ''ok'' @ [34] @ asc ''}''"

definition loads_basic :: "ustr \<Rightarrow> pyval option" where
  "loads_basic s =
     (if s = summary_ok_json then Some (PDict [(asc ''summary'', PStr (asc ''ok''))])
      else None)"

text \<open>\<open>md5_basic\<close> is the MD5 digest of the empty text and of the text \<open>ok\<close>.\<close>

definition md5_basic :: "ustr \<Rightarrow> ustr" where
  "md5_basic text =
     (if text = asc ''ok'' then asc ''444bcb3a3fcf8389296c49467f27e1d6''
      else asc ''d41d8cd98f00b204e9800998ecf8427e'')"

definition isoformat_basic :: "int \<Rightarrow> ustr" where
  "isoformat_basic now = asc ''t'' @ py_str_nat (nat now)"

definition test_lib :: pylib where
  "test_lib =
     \<lparr>json_loads = loads_basic, md5_hexdigest = md5_basic, str_lower = lower_basic,
      isoformat = isoformat_basic\<rparr>"

text \<open>An analyzer as \<open>__init__\<close> leaves it when no cache file exists.\<close>

definition new_analyzer :: "ustr \<Rightarrow> ustr \<Rightarrow> ustr \<Rightarrow> analyzer" where
  "new_analyzer key folder cloud =
     \<lparr>api_key = key, folder_id = folder, cloud_id = cloud, cache = Map.empty,
      request_count = 0, cache_enabled = True\<rparr>"

text \<open>A world at clock reading 0 whose service answers as \<open>srv\<close> says, at once.\<close>

definition new_world :: "(nat \<Rightarrow> http_outcome) \<Rightarrow> world" where
  "new_world srv =
     \<lparr>clock = 0, server = srv, latency = (\<lambda>n. 0), posts = 0, disk = None,
      disk_writable = True, trace = []\<rparr>"

text \<open>The body of a completion answer whose text is \<open>ai_text\<close>.\<close>

definition completion_body :: "ustr \<Rightarrow> pyval" where
  "completion_body ai_text =
     PDict [(asc ''result'',
       PDict [(asc ''alternatives'',
         PList [PDict [(asc ''message'', PDict [(asc ''text'', PStr ai_text)])]])])]"

text \<open>Two of the risk words: "voyna" (war) and "krizis" (crisis).\<close>

definition voyna :: ustr where
  "voyna = [1074, 1086, 1081, 1085, 1072]"

definition krizis :: ustr where
  "krizis = [1082, 1088, 1080, 1079, 1080, 1089]"

text \<open>
  An answer with a fenced block that is not JSON, followed by a JSON object:
  \<^verbatim>\<open>```json\<close>, \<^verbatim>\<open>not json\<close>, \<^verbatim>\<open>```\<close> and \<^verbatim>\<open>{"summary": "ok"}\<close>, one per line.
\<close>

definition fenced_garbage :: ustr where
  "fenced_garbage =
     backticks @ asc ''json'' @ [10] @ asc ''not json'' @ fence_close @ [10] @ summary_ok_json"

text \<open>An analyzer with both credentials, and one whose folder identifier is missing.\<close>

definition test_analyzer :: analyzer where
  "test_analyzer = new_analyzer (asc ''key'') (asc ''folder'') (asc ''cloud'')"

definition no_folder_analyzer :: analyzer where
  "no_folder_analyzer = new_analyzer (asc ''key'') [] (asc ''cloud'')"

text \<open>
  A service that answers 429 to its first three requests and 500 from then on, and one
  that answers 400 to every request.
\<close>

definition limited3 :: "nat \<Rightarrow> http_outcome" where
  "limited3 n = (if n < 3 then Response 429 None else Response 500 None)"

definition bad_request :: "nat \<Rightarrow> http_outcome" where
  "bad_request n = Response 400 None"

text \<open>A service that answers every request with the object \<open>{"summary": "ok"}\<close>.\<close>

definition answers_ok :: "nat \<Rightarrow> http_outcome" where
  "answers_ok n = Response 200 (Some (completion_body summary_ok_json))"

text \<open>A service that answers 429 to its first request and the object afterwards.\<close>

definition limited_then_ok :: "nat \<Rightarrow> http_outcome" where
  "limited_then_ok n =
     (if n = 0 then Response 429 None
      else Response 200 (Some (completion_body summary_ok_json)))"

text \<open>The cache key of the text \<open>ok\<close>.\<close>

definition ok_key :: ustr where
  "ok_key = asc ''news_444bcb3a3fcf8389296c49467f27e1d6''"

text \<open>
  What \<open>analyze_news\<close> makes of that answer for the text \<open>ok\<close> at the clock reading
  \<open>now\<close>, and at the clock reading 0.
\<close>

definition remote_result_at :: "int \<Rightarrow> pyval" where
  "remote_result_at now =
     PDict [(asc ''summary'', PStr (asc ''ok'')),
            (asc ''analyzed_at'', PStr (isoformat_basic now)),
            (asc ''text_hash'', PStr (asc ''444bcb3a'')), (asc ''is_fallback'', PBool False)]"

definition remote_result :: pyval where
  "remote_result = remote_result_at 0"

text \<open>An analyzer whose cache holds that result for the text \<open>ok\<close>, stored at \<open>ts\<close>.\<close>

definition cached_analyzer :: "int \<Rightarrow> analyzer" where
  "cached_analyzer ts =
     test_analyzer\<lparr>cache := [ok_key \<mapsto> \<lparr>timestamp = ts, data = remote_result\<rparr>]\<rparr>"

text \<open>A world whose clock reads \<open>now\<close>.\<close>

definition world_at :: "int \<Rightarrow> (nat \<Rightarrow> http_outcome) \<Rightarrow> world" where
  "world_at now srv = (new_world srv)\<lparr>clock := now\<rparr>"

text \<open>The analyzer and the world after one successful call at clock reading 0.\<close>

definition stored_analyzer :: analyzer where
  "stored_analyzer = (cached_analyzer 0)\<lparr>request_count := 1\<rparr>"

definition stored_world :: world where
  "stored_world =
     (new_world answers_ok)\<lparr>posts := 1, trace := [Post],
        disk := Some [ok_key \<mapsto> \<lparr>timestamp = 0, data = remote_result\<rparr>]\<rparr>"

text \<open>Two days later, with a service that refuses every request.\<close>

definition stale_world :: world where
  "stale_world = world_at (2 * day) bad_request"



section \<open>Evaluation lemmas\<close>

lemma asc_simps: "asc [] = []" "asc (c # cs) = of_char c # asc cs"
  by (simp_all add: asc_def)

lemma sublist_eval:
  "sublist [] ys" "sublist (x # xs) [] = False"
  "sublist (x # xs) (y # ys) = (prefix (x # xs) (y # ys) \<or> sublist (x # xs) ys)"
  by (simp_all add: sublist_Cons_right)

section \<open>The fallback results\<close>

lemma basic_fallback_lookup:
  "py_lookup (create_basic_fallback news_text mentioned_tickers) (asc ''is_fallback'')
     = Some (PBool True)"
  "py_lookup (create_basic_fallback news_text mentioned_tickers) (asc ''confidence'') = None"
  by (simp_all add: create_basic_fallback_def asc_simps)

text \<open>
  C2. Both fallbacks are total functions and mark their result with
  \<open>is_fallback = True\<close>, but only the enhanced fallback fills every field:
  \<open>_create_basic_fallback\<close> returns, for every text and ticker list (the empty ones
  included), a dictionary without the keys \<open>sentiment_score\<close>, \<open>confidence\<close> and
  \<open>analyzed_at\<close>.
\<close>

theorem basic_fallback_lacks_fields:
  "py_lookup (create_basic_fallback news_text mentioned_tickers) (asc ''is_fallback'')
     = Some (PBool True)
   \<and> py_lookup (create_basic_fallback news_text mentioned_tickers) (asc ''sentiment_score'')
     = None
   \<and> py_lookup (create_basic_fallback news_text mentioned_tickers) (asc ''confidence'') = None
   \<and> py_lookup (create_basic_fallback news_text mentioned_tickers) (asc ''analyzed_at'')
     = None"
  by (simp add: create_basic_fallback_def asc_simps)

lemma enhanced_unfold:
  "create_enhanced_fallback lib now news_text mentioned_tickers =
     (let text_lower = str_lower lib news_text;
          positive_count = count_words positive_words text_lower;
          negative_count = count_words negative_words text_lower;
          sentiment = fst (sentiment_of positive_count negative_count);
          sentiment_score = snd (sentiment_of positive_count negative_count);
          risk_count = count_words risk_words text_lower;
          risk_level = risk_level_of risk_count;
          action = action_of sentiment
      in PDict
        [(asc ''summary'', PStr (enh_summary_prefix @ take 120 news_text @ asc ''...'')),
         (asc ''detailed_analysis'',
            PStr (t_found @ py_str_nat positive_count @ t_positive_and
                  @ py_str_nat negative_count @ t_negative_signals)),
         (asc ''sentiment'', PStr sentiment),
         (asc ''sentiment_score'', PFloat sentiment_score),
         (asc ''risk_level'', PStr risk_level),
         (asc ''risk_explanation'', PStr (t_detected @ py_str_nat risk_count @ t_risk_words)),
         (asc ''affected_assets'', affected_assets mentioned_tickers),
         (asc ''market_impact'', PStr enh_impact),
         (asc ''short_term_forecast'', PStr (t_expected @ sentiment @ t_dynamics)),
         (asc ''recommended_actions'', PStr action),
         (asc ''key_risks'', PList (if risk_level \<noteq> r_low then [PStr t_limited] else [])),
         (asc ''opportunities'', PList [PStr t_deeper]),
         (asc ''confidence'', PFloat 0.6),
         (asc ''analyzed_at'', PStr (isoformat lib now)),
         (asc ''is_fallback'', PBool True)])"
  unfolding create_enhanced_fallback_def Let_def case_prod_beta ..

lemma enhanced_fallback_lookup:
  "py_lookup (create_enhanced_fallback lib now news_text mentioned_tickers) (asc ''is_fallback'')
     = Some (PBool True)"
  "py_lookup (create_enhanced_fallback lib now news_text mentioned_tickers) (asc ''confidence'')
     = Some (PFloat 0.6)"
  "py_lookup (create_enhanced_fallback lib now news_text mentioned_tickers) (asc ''analyzed_at'')
     = Some (PStr (isoformat lib now))"
  "py_lookup (create_enhanced_fallback lib now news_text mentioned_tickers)
       (asc ''sentiment_score'')
     = Some (PFloat (snd (sentiment_of (count_words positive_words (str_lower lib news_text))
                                       (count_words negative_words (str_lower lib news_text)))))"
  "py_lookup (create_enhanced_fallback lib now news_text mentioned_tickers) (asc ''risk_level'')
     = Some (PStr (risk_level_of (count_words risk_words (str_lower lib news_text))))"
  unfolding enhanced_unfold Let_def by (simp_all add: asc_simps)

lemma risk_levels_distinct: "r_high \<noteq> r_medium" "r_high \<noteq> r_low" "r_medium \<noteq> r_low"
  by (simp_all add: r_high_def r_medium_def r_low_def)

lemma risk_words_distinct: "distinct risk_words"
  by (simp add: risk_words_def)

lemma count_words_card:
  "distinct words \<Longrightarrow> count_words words t = card {w \<in> set words. sublist w t}"
  unfolding count_words_def
  by (metis distinct_card distinct_filter set_filter)

lemma two_in_card:
  assumes "finite S" "a \<in> S" "b \<in> S" "a \<noteq> b"
  shows "2 \<le> card S"
proof -
  have "{a, b} \<subseteq> S" using assms by simp
  then have "card {a, b} \<le> card S" using assms(1) by (rule card_mono[rotated])
  then show ?thesis using assms(4) by simp
qed

text \<open>
  C8 (as amended). The enhanced fallback sets \<open>risk_level\<close> from the number of words of
  the fixed risk list that occur in the lower-cased text, each listed word counting once
  however often it occurs: two or more such words give high, exactly one gives medium,
  none gives low. In particular a text that contains two different words of the list
  gets high, \<open>str.lower\<close> leaving the lower-case words of the list in place.
\<close>

theorem enhanced_fallback_risk_level:
  "(2 \<le> card {word \<in> set risk_words. sublist word (str_lower lib news_text)} \<longrightarrow>
      py_lookup (create_enhanced_fallback lib now news_text tickers) (asc ''risk_level'')
        = Some (PStr r_high))
   \<and> (card {word \<in> set risk_words. sublist word (str_lower lib news_text)} = 1 \<longrightarrow>
      py_lookup (create_enhanced_fallback lib now news_text tickers) (asc ''risk_level'')
        = Some (PStr r_medium))
   \<and> (card {word \<in> set risk_words. sublist word (str_lower lib news_text)} = 0 \<longrightarrow>
      py_lookup (create_enhanced_fallback lib now news_text tickers) (asc ''risk_level'')
        = Some (PStr r_low))
   \<and> ((\<forall>word \<in> set risk_words.
          sublist word news_text \<longrightarrow> sublist word (str_lower lib news_text))
        \<and> w1 \<in> set risk_words \<and> w2 \<in> set risk_words \<and> w1 \<noteq> w2
        \<and> sublist w1 news_text \<and> sublist w2 news_text \<longrightarrow>
      py_lookup (create_enhanced_fallback lib now news_text tickers) (asc ''risk_level'')
        = Some (PStr r_high))"
proof -
  let ?matches = "{word \<in> set risk_words. sublist word (str_lower lib news_text)}"
  let ?risk =
    "py_lookup (create_enhanced_fallback lib now news_text tickers) (asc ''risk_level'')"
  have cnt: "count_words risk_words (str_lower lib news_text) = card ?matches"
    by (rule count_words_card[OF risk_words_distinct])
  have risk: "?risk = Some (PStr (risk_level_of (card ?matches)))"
    by (simp add: enhanced_fallback_lookup cnt)
  have fin: "finite ?matches" by simp
  have two: "2 \<le> card ?matches"
    if "w1 \<in> ?matches" "w2 \<in> ?matches" "w1 \<noteq> w2"
    using that two_in_card[OF fin, of w1 w2] by simp
  have high: "2 \<le> card ?matches \<longrightarrow> ?risk = Some (PStr r_high)"
    by (simp add: risk risk_level_of_def)
  have medium: "card ?matches = 1 \<longrightarrow> ?risk = Some (PStr r_medium)"
    by (simp add: risk risk_level_of_def)
  have low: "card ?matches = 0 \<longrightarrow> ?risk = Some (PStr r_low)"
  proof
    assume none: "card ?matches = 0"
    show "?risk = Some (PStr r_low)"
      unfolding risk none by (simp add: risk_level_of_def)
  qed
  have distinct_words:
    "(\<forall>word \<in> set risk_words.
        sublist word news_text \<longrightarrow> sublist word (str_lower lib news_text))
        \<and> w1 \<in> set risk_words \<and> w2 \<in> set risk_words \<and> w1 \<noteq> w2
        \<and> sublist w1 news_text \<and> sublist w2 news_text \<longrightarrow> ?risk = Some (PStr r_high)"
  proof (intro impI, elim conjE)
    assume keeps: "\<forall>word \<in> set risk_words.
        sublist word news_text \<longrightarrow> sublist word (str_lower lib news_text)"
      and w: "w1 \<in> set risk_words" "w2 \<in> set risk_words" "w1 \<noteq> w2"
      and occ: "sublist w1 news_text" "sublist w2 news_text"
    have "w1 \<in> ?matches" "w2 \<in> ?matches" using keeps w occ by simp_all
    then have "2 \<le> card ?matches" using w(3) by (rule two)
    with high show "?risk = Some (PStr r_high)" by simp
  qed
  from high medium low distinct_words show ?thesis by (intro conjI)
qed

lemma count_voyna_krizis:
  "count_words risk_words (lower_basic (voyna @ [32] @ krizis)) = 2"
  by (simp add: count_words_def risk_words_def lower_basic_def voyna_def krizis_def sublist_eval)

lemma count_voyna: "count_words risk_words (lower_basic voyna) = 1"
  by (simp add: count_words_def risk_words_def lower_basic_def voyna_def sublist_eval)

lemma count_empty: "count_words risk_words (lower_basic []) = 0"
  by (simp add: count_words_def risk_words_def lower_basic_def sublist_eval)

text \<open>
  Instances: the text "voyna krizis" gets high, "voyna" gets medium, the empty text
  gets low; lower-casing leaves the first text as it is.
\<close>

theorem enhanced_fallback_risk_level_witness:
  "py_lookup (create_enhanced_fallback test_lib 0 (voyna @ [32] @ krizis) []) (asc ''risk_level'')
     = Some (PStr r_high)
   \<and> py_lookup (create_enhanced_fallback test_lib 0 voyna []) (asc ''risk_level'')
     = Some (PStr r_medium)
   \<and> py_lookup (create_enhanced_fallback test_lib 0 [] []) (asc ''risk_level'')
     = Some (PStr r_low)
   \<and> voyna \<in> set risk_words \<and> krizis \<in> set risk_words \<and> voyna \<noteq> krizis
   \<and> sublist voyna (voyna @ [32] @ krizis) \<and> sublist krizis (voyna @ [32] @ krizis)
   \<and> str_lower test_lib (voyna @ [32] @ krizis) = voyna @ [32] @ krizis"
proof -
  have low_id: "str_lower test_lib (voyna @ [32] @ krizis) = voyna @ [32] @ krizis"
    by (simp add: test_lib_def lower_basic_def voyna_def krizis_def)
  have words: "voyna \<in> set risk_words" "krizis \<in> set risk_words" "voyna \<noteq> krizis"
    by (simp_all add: risk_words_def voyna_def krizis_def)
  have occ: "sublist voyna (voyna @ [32] @ krizis)" "sublist krizis (voyna @ [32] @ krizis)"
    by (simp_all add: voyna_def krizis_def sublist_eval)
  have keeps: "\<forall>word \<in> set risk_words. sublist word (voyna @ [32] @ krizis)
         \<longrightarrow> sublist word (str_lower test_lib (voyna @ [32] @ krizis))"
    unfolding low_id by simp
  have c1: "card {word \<in> set risk_words. sublist word (str_lower test_lib voyna)} = 1"
    using count_voyna count_words_card[OF risk_words_distinct, of "lower_basic voyna"]
    by (simp add: test_lib_def)
  have c0: "card {word \<in> set risk_words. sublist word (str_lower test_lib [])} = 0"
    using count_empty count_words_card[OF risk_words_distinct, of "lower_basic []"]
    by (simp add: test_lib_def)
  note two = enhanced_fallback_risk_level[of test_lib "voyna @ [32] @ krizis" 0 "[]" voyna krizis]
  note one = enhanced_fallback_risk_level[of test_lib voyna 0 "[]" voyna krizis]
  note zero = enhanced_fallback_risk_level[of test_lib "[]" 0 "[]" voyna krizis]
  have h: "py_lookup (create_enhanced_fallback test_lib 0 (voyna @ [32] @ krizis) [])
             (asc ''risk_level'') = Some (PStr r_high)"
    using two keeps words occ by blast
  have m: "py_lookup (create_enhanced_fallback test_lib 0 voyna []) (asc ''risk_level'')
     = Some (PStr r_medium)"
    using one c1 by blast
  have l: "py_lookup (create_enhanced_fallback test_lib 0 [] []) (asc ''risk_level'')
     = Some (PStr r_low)"
    using zero c0 by blast
  from h m l words occ low_id show ?thesis by (intro conjI)
qed

text \<open>
  The claim as stated, with occurrences counted, fails on a text that repeats one risk
  word: in "voyna voyna" the listed words occur twice, yet the code counts one word and
  the level is medium, not high.
\<close>

lemma count_voyna_voyna:
  "count_words risk_words (lower_basic (voyna @ [32] @ voyna)) = 1"
  by (simp add: count_words_def risk_words_def lower_basic_def voyna_def sublist_eval)

theorem enhanced_fallback_repeated_word_counterexample:
  "voyna \<in> set risk_words
   \<and> str_lower test_lib (voyna @ [32] @ voyna) = voyna @ [32] @ voyna
   \<and> spec_occurrences voyna (voyna @ [32] @ voyna) = 2
   \<and> spec_risk_count (voyna @ [32] @ voyna) = 2
   \<and> py_lookup (create_enhanced_fallback test_lib 0 (voyna @ [32] @ voyna) []) (asc ''risk_level'')
       = Some (PStr r_medium)
   \<and> r_medium \<noteq> r_high"
proof -
  have 1: "voyna \<in> set risk_words" by (simp add: risk_words_def voyna_def)
  have 2: "str_lower test_lib (voyna @ [32] @ voyna) = voyna @ [32] @ voyna"
    by (simp add: test_lib_def lower_basic_def voyna_def)
  have 3: "spec_occurrences voyna (voyna @ [32] @ voyna) = 2"
    by (simp add: voyna_def)
  have 4: "spec_risk_count (voyna @ [32] @ voyna) = 2"
    by (simp add: spec_risk_count_def risk_words_def voyna_def)
  have 5: "py_lookup (create_enhanced_fallback test_lib 0 (voyna @ [32] @ voyna) []) (asc ''risk_level'')
       = Some (PStr r_medium)"
    using count_voyna_voyna by (simp add: enhanced_fallback_lookup test_lib_def risk_level_of_def)
  have 6: "r_medium \<noteq> r_high" using risk_levels_distinct(1) by simp
  from 1 2 3 4 5 6 show ?thesis by (intro conjI)
qed

section \<open>Extracting JSON\<close>

lemma find_sub_None: "find_sub pat t = None \<longleftrightarrow> \<not> sublist pat t"
  by (induction t) (auto simp: sublist_Cons_right)

lemma find_sub_Some:
  "find_sub pat t = Some i \<Longrightarrow>
     i \<le> length t \<and> prefix pat (drop i t) \<and> (\<forall>j<i. \<not> prefix pat (drop j t))"
proof (induction t arbitrary: i)
  case Nil
  then show ?case by (simp split: if_splits)
next
  case (Cons c cs)
  show ?case
  proof (cases "prefix pat (c # cs)")
    case True
    with Cons.prems show ?thesis by simp
  next
    case False
    with Cons.prems obtain k where k: "find_sub pat cs = Some k" "i = Suc k" by auto
    from Cons.IH[OF k(1)]
    have ih: "k \<le> length cs" "prefix pat (drop k cs)" "\<forall>j<k. \<not> prefix pat (drop j cs)"
      by simp_all
    have "\<not> prefix pat (drop j (c # cs))" if "j < i" for j
    proof (cases j)
      case 0
      then show ?thesis using False by simp
    next
      case (Suc j')
      then show ?thesis using that k(2) ih(3) by simp
    qed
    then show ?thesis using ih k(2) by simp
  qed
qed

text \<open>The search by hand finds nothing that the third pattern has not found.\<close>

lemma search_by_hand_dead:
  "re_search Braces text = None \<Longrightarrow> search_by_hand lib text = Inr PNone"
  by (auto simp: search_by_hand_def split: option.splits if_splits)

lemma extract_json_cases:
  "extract_json_from_response lib (PStr text) =
     (case re_search (Fenced (backticks @ asc ''json'' @ [10])) text of
        Some json_str \<Rightarrow> (case json_loads lib json_str of Some v \<Rightarrow> v | None \<Rightarrow> PNone)
      | None \<Rightarrow>
     (case re_search (Fenced (backticks @ [10])) text of
        Some json_str \<Rightarrow> (case json_loads lib json_str of Some v \<Rightarrow> v | None \<Rightarrow> PNone)
      | None \<Rightarrow>
     (case re_search Braces text of
        Some json_str \<Rightarrow> (case json_loads lib json_str of Some v \<Rightarrow> v | None \<Rightarrow> PNone)
      | None \<Rightarrow> PNone)))"
  by (simp add: extract_json_from_response_def json_patterns_def search_by_hand_dead loads_def
           split: option.splits)

lemma usable_iff:
  "(usable analysis = Inr True \<and> (\<exists>a'. add_metadata lib now news_text analysis = Inr a'))
     = (\<exists>d. analysis = PDict d \<and> asc ''summary'' \<in> fst ` set d)"
  by (cases analysis) (auto simp: usable_def add_metadata_def)

text \<open>
  C3 (as amended). JSON extraction looks at the candidates in order: fenced block declared
  as json, generic fenced block, the substring from the first opening brace to the last
  closing brace. The first candidate that matches is the only one parsed, and its
  outcome is final: when it does not parse, extraction yields nothing, whatever a later
  candidate would have given. The answer is usable exactly when the extracted value is
  a dictionary with a key \<open>summary\<close>.
\<close>

theorem extract_json_first_match_final:
  "extract_json_from_response lib (PStr text) =
     (case re_search (Fenced (backticks @ asc ''json'' @ [10])) text of
        Some json_str \<Rightarrow> (case json_loads lib json_str of Some v \<Rightarrow> v | None \<Rightarrow> PNone)
      | None \<Rightarrow>
     (case re_search (Fenced (backticks @ [10])) text of
        Some json_str \<Rightarrow> (case json_loads lib json_str of Some v \<Rightarrow> v | None \<Rightarrow> PNone)
      | None \<Rightarrow>
     (case re_search Braces text of
        Some json_str \<Rightarrow> (case json_loads lib json_str of Some v \<Rightarrow> v | None \<Rightarrow> PNone)
      | None \<Rightarrow> PNone)))
   \<and> ((usable analysis = Inr True
        \<and> (\<exists>a'. add_metadata lib now news_text analysis = Inr a'))
       = (\<exists>d. analysis = PDict d \<and> asc ''summary'' \<in> fst ` set d))"
  using extract_json_cases usable_iff by (intro conjI)

lemma fenced_garbage_first:
  "re_search (Fenced (backticks @ asc ''json'' @ [10])) fenced_garbage = Some (asc ''not json'')"
  by (simp add: fenced_garbage_def backticks_def fence_close_def summary_ok_json_def asc_simps)

lemma fenced_garbage_braces: "re_search Braces fenced_garbage = Some summary_ok_json"
  by (simp add: fenced_garbage_def backticks_def fence_close_def summary_ok_json_def asc_simps
        rfind_sub_def)

text \<open>
  The claim as stated fails on \<open>fenced_garbage\<close>: its third candidate is the object
  \<open>{"summary": "ok"}\<close>, which parses, yet extraction yields \<open>None\<close>, because the fenced
  block matched first and did not parse.
\<close>

theorem extract_json_no_fallthrough_counterexample:
  "re_search Braces fenced_garbage = Some summary_ok_json
   \<and> json_loads test_lib summary_ok_json = Some (PDict [(asc ''summary'', PStr (asc ''ok''))])
   \<and> extract_json_from_response test_lib (PStr fenced_garbage) = PNone"
proof -
  have "json_loads test_lib (asc ''not json'') = None"
    by (simp add: test_lib_def loads_basic_def summary_ok_json_def asc_simps)
  then have "extract_json_from_response test_lib (PStr fenced_garbage) = PNone"
    unfolding extract_json_cases fenced_garbage_first by simp
  moreover have "json_loads test_lib summary_ok_json
      = Some (PDict [(asc ''summary'', PStr (asc ''ok''))])"
    by (simp add: test_lib_def loads_basic_def)
  ultimately show ?thesis using fenced_garbage_braces by simp
qed

section \<open>The cache operations\<close>

lemma prune_Some:
  "prune cutoff c key = Some e \<longleftrightarrow> c key = Some e \<and> \<not> timestamp e < cutoff"
  by (auto simp: prune_def split: option.splits)

lemma save_cache_disabled: "\<not> cache_enabled an \<Longrightarrow> save_cache w an = (w, an)"
  by (simp add: save_cache_def)

lemma save_cache_enabled:
  "cache_enabled an \<Longrightarrow>
     save_cache w an =
       ((if disk_writable w then w\<lparr>disk := Some (prune (clock w - 7 * day) (cache an))\<rparr>
         else w),
        an\<lparr>cache := prune (clock w - 7 * day) (cache an)\<rparr>)"
  by (simp add: save_cache_def Let_def)


section \<open>What a call of \<open>analyze_news\<close> keeps\<close>

lemma step_ok_refl: "step_ok uc w an w an"
  by (simp add: step_ok_def)

lemma step_ok_trans:
  "step_ok uc w an w1 an1 \<Longrightarrow> step_ok uc w1 an1 w2 an2 \<Longrightarrow> step_ok uc w an w2 an2"
  by (auto simp: step_ok_def)

lemma step_ok_weaken: "step_ok False w an w' an' \<Longrightarrow> step_ok uc w an w' an'"
  by (auto simp: step_ok_def)

lemma cache_inv_request_count [simp]: "cache_inv (an\<lparr>request_count := n\<rparr>) = cache_inv an"
  by (simp add: cache_inv_def)

lemma step_ok_sleep: "step_ok uc w an (sleep n w) an"
  by (simp add: step_ok_def sleep_def second_def)

lemma send_request_facts:
  "send_request w an = (response, w2, an1) \<Longrightarrow>
     response = server w (posts w) \<and> posts w2 = Suc (posts w)
     \<and> an1 = an\<lparr>request_count := request_count an + 1\<rparr>
     \<and> disk w2 = disk w
     \<and> trace w2 = trace w @ (if (request_count an + 1) mod 5 = 0 then [Sleep 1] else []) @ [Post]"
  by (auto simp: send_request_def http_post_def sleep_def Let_def split: if_splits)

lemma step_ok_send_request:
  "send_request w an = (response, w2, an1) \<Longrightarrow> step_ok False w an w2 an1"
  by (auto simp: send_request_def http_post_def sleep_def Let_def step_ok_def second_def
      split: if_splits)

lemma cache_inv_prune: "cache_inv an \<Longrightarrow> cache_inv (an\<lparr>cache := prune cutoff (cache an)\<rparr>)"
  by (auto simp: cache_inv_def prune_Some)

lemma step_ok_save_cache: "save_cache w an = (w', an') \<Longrightarrow> step_ok True w an w' an'"
  by (cases "cache_enabled an")
     (auto simp: save_cache_enabled save_cache_disabled step_ok_def cache_inv_prune split: if_splits)

lemma cache_inv_update:
  "cache_inv an \<Longrightarrow> py_lookup r (asc ''is_fallback'') = Some (PBool False) \<Longrightarrow>
     cache_inv (an\<lparr>cache := (cache an)(key \<mapsto> \<lparr>timestamp = ts, data = r\<rparr>)\<rparr>)"
  by (auto simp: cache_inv_def)

lemma step_ok_cache_put:
  assumes "cache_put w an key uc r = (w', an')"
    and "py_lookup r (asc ''is_fallback'') = Some (PBool False)"
  shows "step_ok uc w an w' an'"
proof (cases "uc \<and> cache_enabled an")
  case True
  let ?an = "an\<lparr>cache := (cache an)(key \<mapsto> \<lparr>timestamp = clock w, data = r\<rparr>)\<rparr>"
  from True assms(1) have s: "save_cache w ?an = (w', an')" by (simp add: cache_put_def)
  have "step_ok True w an w ?an"
    using cache_inv_update[OF _ assms(2)] by (auto simp: step_ok_def)
  from step_ok_trans[OF this step_ok_save_cache[OF s]] show ?thesis using True
    by (simp add: step_ok_def)
next
  case False
  with assms(1) have "w' = w" "an' = an" by (auto simp: cache_put_def)
  then show ?thesis by (simp add: step_ok_refl)
qed

lemma add_metadata_is_fallback:
  "add_metadata lib now news_text analysis = Inr a' \<Longrightarrow>
     py_lookup a' (asc ''is_fallback'') = Some (PBool False)"
  by (cases analysis) (auto simp: add_metadata_def update_conv')

lemma handle_200_ok:
  assumes "handle_200 lib w an news_text tickers uc key body = (res, w', an')"
  shows "step_ok uc w an w' an' \<and> (\<forall>r. res = Inr r \<longrightarrow> remote_or_enhanced lib news_text tickers r)"
  using assms
  by (auto simp: handle_200_def Let_def step_ok_refl remote_or_enhanced_def
        add_metadata_is_fallback step_ok_cache_put enhanced_fallback_lookup
      split: option.splits sum.splits if_splits prod.splits)


lemma analyze_news_Suc_cases [consumes 1, case_names no_key unencodable hit ok200 other_status raised retry]:
  assumes "analyze_news lib (Suc d) w an t k uc = Some out"
  obtains
    "api_key an = []" "out = (Inr (create_basic_fallback t k), w, an)"
  | e where "api_key an \<noteq> []" "get_cache_key lib t (asc ''news'') = Inl e"
      "out = (Inl e, w, an)"
  | ck c where "api_key an \<noteq> []" "get_cache_key lib t (asc ''news'') = Inr ck"
      "cache_get an ck uc (clock w) = Some c" "out = (Inr c, w, an)"
  | ck w2 an1 body where "api_key an \<noteq> []" "get_cache_key lib t (asc ''news'') = Inr ck"
      "cache_get an ck uc (clock w) = None"
      "send_request w an = (Response 200 body, w2, an1)"
      "out = recover lib t k (handle_200 lib w2 an1 t k uc ck body)"
  | ck w2 an1 status body where "api_key an \<noteq> []"
      "get_cache_key lib t (asc ''news'') = Inr ck" "cache_get an ck uc (clock w) = None"
      "send_request w an = (Response status body, w2, an1)" "status \<noteq> 200" "status \<noteq> 429"
      "out = (Inr (create_enhanced_fallback lib (clock w2) t k), w2, an1)"
  | ck w2 an1 response where "api_key an \<noteq> []"
      "get_cache_key lib t (asc ''news'') = Inr ck" "cache_get an ck uc (clock w) = None"
      "send_request w an = (response, w2, an1)" "\<forall>status body. response \<noteq> Response status body"
      "out = (Inr (create_enhanced_fallback lib (clock w2) t k), w2, an1)"
  | ck w2 an1 body x where "api_key an \<noteq> []"
      "get_cache_key lib t (asc ''news'') = Inr ck" "cache_get an ck uc (clock w) = None"
      "send_request w an = (Response 429 body, w2, an1)"
      "analyze_with_retry lib d [0..<2] (sleep 2 w2) an1 t k = Some x"
      "out = recover lib t k x"
proof (cases "api_key an = []")
  case True
  with assms that(1) show ?thesis by simp
next
  case key: False
  show ?thesis
  proof (cases "get_cache_key lib t (asc ''news'')")
    case (Inl e)
    with assms key that(2) show ?thesis by simp
  next
    case (Inr ck)
    show ?thesis
    proof (cases "cache_get an ck uc (clock w)")
      case (Some c)
      with assms key Inr that(3) show ?thesis by simp
    next
      case None
      obtain response w2 an1 where sr: "send_request w an = (response, w2, an1)"
        by (cases "send_request w an") auto
      show ?thesis
      proof (cases response)
        case (Response status body)
        consider "status = 200" | "status = 429" | "status \<noteq> 200" "status \<noteq> 429" by blast
        then show ?thesis
        proof cases
          case 1
          with assms key Inr None sr Response that(4)[of ck body w2 an1] show ?thesis by simp
        next
          case 2
          with assms key Inr None sr Response that(7)[of ck body w2 an1] show ?thesis
            by (auto split: option.splits)
        next
          case 3
          with assms key Inr None sr Response that(5)[of ck status body w2 an1] show ?thesis
            by simp
        qed
      next
        case RaisesTimeout
        with assms key Inr None sr that(6)[of ck response w2 an1] show ?thesis by simp
      next
        case RaisesConnectionError
        with assms key Inr None sr that(6)[of ck response w2 an1] show ?thesis by simp
      next
        case RaisesOther
        with assms key Inr None sr that(6)[of ck response w2 an1] show ?thesis by simp
      qed
    qed
  qed
qed


lemma result_ok_Inr:
  "remote_or_enhanced lib t k r \<Longrightarrow> result_ok lib t k an (Inr r)"
  by (simp add: result_ok_def)

lemma remote_or_enhanced_fallback: "remote_or_enhanced lib t k (create_enhanced_fallback lib now t k)"
  by (auto simp: remote_or_enhanced_def)

lemma result_ok_step:
  "step_ok uc w an w1 an1 \<Longrightarrow> result_ok lib t k an1 res \<Longrightarrow> result_ok lib t k an res"
  by (auto simp: step_ok_def result_ok_def)

lemma recover_cases:
  "recover lib t k (res, w, an) =
     (case res of Inl e \<Rightarrow> (Inr (create_enhanced_fallback lib (clock w) t k), w, an)
                | Inr r \<Rightarrow> (Inr r, w, an))"
  by (cases res) simp_all

lemma retry_ok_from_news:
  assumes news: "\<And>w an uc res w' an'. analyze_news lib d w an t k uc = Some (res, w', an') \<Longrightarrow>
            step_ok uc w an w' an' \<and> result_ok lib t k an res"
  shows "analyze_with_retry lib d atts w an t k = Some (res, w', an') \<Longrightarrow>
           step_ok False w an w' an' \<and> result_ok lib t k an res \<and> (\<exists>r. res = Inr r)"
proof (induction atts arbitrary: w an)
  case Nil
  then show ?case
    by (auto simp: step_ok_refl result_ok_Inr remote_or_enhanced_fallback)
next
  case (Cons a rest)
  show ?case
  proof (cases "analyze_news lib d (sleep (2 ^ a) w) an t k False")
    case None
    with Cons.prems
    have rest: "analyze_with_retry lib d rest (sleep (2 ^ a) w) an t k = Some (res, w', an')"
      by simp
    have st1: "step_ok False w an (sleep (2 ^ a) w) an" by (rule step_ok_sleep)
    from Cons.IH[OF rest]
    have ih: "step_ok False (sleep (2 ^ a) w) an w' an'" "result_ok lib t k an res"
      "\<exists>r. res = Inr r"
      by simp_all
    from step_ok_trans[OF st1 ih(1)] ih(2,3) show ?thesis by simp
  next
    case (Some out)
    obtain res1 w1 an1 where out: "out = (res1, w1, an1)" by (cases out) auto
    from Some out
    have first: "analyze_news lib d (sleep (2 ^ a) w) an t k False = Some (res1, w1, an1)"
      by simp
    from news[OF first]
    have ok1: "step_ok False (sleep (2 ^ a) w) an w1 an1" "result_ok lib t k an res1"
      by simp_all
    have st1: "step_ok False w an w1 an1"
      using step_ok_trans[OF step_ok_sleep ok1(1)] .
    show ?thesis
    proof (cases res1)
      case (Inr r)
      with Cons.prems first have "res = Inr r" "w' = w1" "an' = an1" by simp_all
      with st1 ok1(2) Inr show ?thesis by simp
    next
      case (Inl e)
      with Cons.prems first
      have rest: "analyze_with_retry lib d rest w1 an1 t k = Some (res, w', an')"
        by simp
      from Cons.IH[OF rest]
      have ih: "step_ok False w1 an1 w' an'" "result_ok lib t k an1 res" "\<exists>r. res = Inr r"
        by simp_all
      from step_ok_trans[OF st1 ih(1)] result_ok_step[OF st1 ih(2)] ih(3) show ?thesis by simp
    qed
  qed
qed

lemma news_ok_from_retry:
  assumes retry: "\<And>atts w an res w' an'. analyze_with_retry lib d atts w an t k = Some (res, w', an') \<Longrightarrow>
           step_ok False w an w' an' \<and> result_ok lib t k an res \<and> (\<exists>r. res = Inr r)"
    and call: "analyze_news lib (Suc d) w an t k uc = Some (res, w', an')"
  shows "step_ok uc w an w' an' \<and> result_ok lib t k an res"
  using call
proof (cases rule: analyze_news_Suc_cases)
  case no_key
  then show ?thesis by (simp add: step_ok_refl result_ok_def)
next
  case (unencodable e)
  then show ?thesis
    by (auto simp: step_ok_refl result_ok_def get_cache_key_def split: if_splits)
next
  case (hit ck c)
  from hit(3) obtain e where "cache an ck = Some e" "data e = c"
    by (auto simp: cache_get_def split: if_splits option.splits)
  then have "cache_inv an \<longrightarrow> remote_or_enhanced lib t k c"
    by (auto simp: cache_inv_def remote_or_enhanced_def)
  with hit show ?thesis by (simp add: step_ok_refl result_ok_def)
next
  case (ok200 ck w2 an1 body)
  obtain res0 w0 an0 where h: "handle_200 lib w2 an1 t k uc ck body = (res0, w0, an0)"
    by (cases "handle_200 lib w2 an1 t k uc ck body") auto
  from handle_200_ok[OF h] have hk: "step_ok uc w2 an1 w0 an0"
      "\<forall>r. res0 = Inr r \<longrightarrow> remote_or_enhanced lib t k r" by simp_all
  have st: "step_ok uc w an w0 an0"
    using step_ok_trans[OF step_ok_weaken[OF step_ok_send_request[OF ok200(4)]] hk(1)] .
  from ok200(5) h have out: "w' = w0" "an' = an0"
      "res = (case res0 of Inl e \<Rightarrow> Inr (create_enhanced_fallback lib (clock w0) t k) | Inr r \<Rightarrow> Inr r)"
    by (simp_all add: recover_cases split: sum.splits)
  have "result_ok lib t k an res"
    using hk(2) unfolding out(3)
    by (cases res0) (simp_all add: result_ok_Inr remote_or_enhanced_fallback)
  with st out show ?thesis by simp
next
  case (other_status ck w2 an1 status body)
  then show ?thesis
    using step_ok_weaken[OF step_ok_send_request[OF other_status(4)]]
    by (simp add: result_ok_Inr remote_or_enhanced_fallback)
next
  case (raised ck w2 an1 response)
  then show ?thesis
    using step_ok_weaken[OF step_ok_send_request[OF raised(4)]]
    by (simp add: result_ok_Inr remote_or_enhanced_fallback)
next
  case (retry ck w2 an1 body x)
  obtain res0 w0 an0 where x: "x = (res0, w0, an0)" by (cases x) auto
  from assms(1)[OF retry(5)[unfolded x]] have rk: "step_ok False (sleep 2 w2) an1 w0 an0"
     "result_ok lib t k an1 res0" "\<exists>r. res0 = Inr r" by simp_all
  have st0: "step_ok False w an w2 an1" by (rule step_ok_send_request[OF retry(4)])
  have st1: "step_ok False w an (sleep 2 w2) an1"
    using step_ok_trans[OF st0 step_ok_sleep] .
  have st: "step_ok False w an w0 an0" using step_ok_trans[OF st1 rk(1)] .
  from rk(3) retry(6) x have out: "res = res0" "w' = w0" "an' = an0" by auto
  from step_ok_weaken[OF st] result_ok_step[OF st1 rk(2)] out show ?thesis by simp
qed

lemma analyze_ok:
  "(\<forall>w an uc res w' an'. analyze_news lib d w an t k uc = Some (res, w', an') \<longrightarrow>
       step_ok uc w an w' an' \<and> result_ok lib t k an res)
   \<and> (\<forall>atts w an res w' an'. analyze_with_retry lib d atts w an t k = Some (res, w', an') \<longrightarrow>
       step_ok False w an w' an' \<and> result_ok lib t k an res \<and> (\<exists>r. res = Inr r))"
proof (induction d)
  case 0
  have news: "analyze_news lib 0 w an t k uc = Some (res, w', an') \<Longrightarrow>
            step_ok uc w an w' an' \<and> result_ok lib t k an res" for w an uc res w' an'
    by simp
  have "analyze_with_retry lib 0 atts w an t k = Some (res, w', an') \<Longrightarrow>
           step_ok False w an w' an' \<and> result_ok lib t k an res \<and> (\<exists>r. res = Inr r)"
    for atts w an res w' an'
    by (rule retry_ok_from_news[where d = 0]) (erule news)
  with news show ?case by blast
next
  case (Suc d)
  then have retry: "analyze_with_retry lib d atts w an t k = Some (res, w', an') \<Longrightarrow>
           step_ok False w an w' an' \<and> result_ok lib t k an res \<and> (\<exists>r. res = Inr r)"
    for atts w an res w' an'
    by blast
  have news: "analyze_news lib (Suc d) w an t k uc = Some (res, w', an') \<Longrightarrow>
            step_ok uc w an w' an' \<and> result_ok lib t k an res" for w an uc res w' an'
    by (rule news_ok_from_retry[where d = d]) (erule retry)
  have "analyze_with_retry lib (Suc d) atts w an t k = Some (res, w', an') \<Longrightarrow>
           step_ok False w an w' an' \<and> result_ok lib t k an res \<and> (\<exists>r. res = Inr r)"
    for atts w an res w' an'
    by (rule retry_ok_from_news[where d = "Suc d"]) (erule news)
  with news show ?case by blast
qed

section \<open>Exceptions and returns of \<open>analyze_news\<close>\<close>

lemma key_ok:
  "get_cache_key test_lib (asc ''ok'') (asc ''news'')
     = Inr (asc ''news_444bcb3a3fcf8389296c49467f27e1d6'')"
  by (simp add: get_cache_key_def utf8_encodable_def test_lib_def md5_basic_def asc_simps)

lemma upt2: "[0..<2] = [0, 1]"
  by (simp add: upt_rec)

lemma test_analyzer_fields:
  "api_key test_analyzer \<noteq> []" "cache test_analyzer = Map.empty" "cache_enabled test_analyzer"
  "request_count test_analyzer = 0"
  by (simp_all add: test_analyzer_def new_analyzer_def asc_simps)

text \<open>
  C1. The claim: for every text and ticker list \<open>analyze_news\<close> returns a result and
  never raises. The code computes the cache key (line 141) before its \<open>try\<close> block
  opens (line 149), and the key encodes the text as UTF-8 (line 84): when an API key is
  set and the text holds a lone surrogate, the call raises \<open>UnicodeEncodeError\<close> and
  leaves the world and the analyzer as they were.
\<close>

theorem analyze_news_raises_on_surrogate:
  "api_key an \<noteq> [] \<and> \<not> utf8_encodable news_text \<longrightarrow>
     analyze_news lib (Suc depth) w an news_text tickers use_cache
       = Some (Inl UnicodeEncodeError, w, an)"
  by (simp add: get_cache_key_def)

theorem analyze_news_raises_on_surrogate_witness:
  "api_key test_analyzer \<noteq> [] \<and> \<not> utf8_encodable [55296]
   \<and> analyze_news test_lib (Suc 0) (new_world limited3) test_analyzer [55296] [] True
       = Some (Inl UnicodeEncodeError, new_world limited3, test_analyzer)"
proof -
  have h: "api_key test_analyzer \<noteq> [] \<and> \<not> utf8_encodable [55296]"
    by (simp add: test_analyzer_fields utf8_encodable_def)
  from h analyze_news_raises_on_surrogate[of test_analyzer "[55296]" test_lib 0 "new_world limited3" "[]" True]
  show ?thesis by blast
qed

text \<open>
  Every other call is safe. A call made within the recursion limit returns, and so does
  every run of \<open>_analyze_with_retry\<close>; on a text that can be encoded, what
  \<open>analyze_news\<close> returns is a result and no exception.
\<close>

lemma analyze_with_retry_returns:
  "\<exists>out. analyze_with_retry lib depth attempts w an news_text tickers = Some out"
proof (induction attempts arbitrary: w an)
  case Nil
  show ?case by simp
next
  case (Cons attempt rest)
  show ?case
  proof (cases "analyze_news lib depth (sleep (2 ^ attempt) w) an news_text tickers False")
    case None
    with Cons.IH[of "sleep (2 ^ attempt) w" an] show ?thesis by simp
  next
    case (Some out)
    obtain res w' an' where out: "out = (res, w', an')" by (cases out) auto
    show ?thesis
    proof (cases res)
      case (Inl e)
      with Some out Cons.IH[of w' an'] show ?thesis by simp
    next
      case (Inr r)
      with Some out show ?thesis by simp
    qed
  qed
qed

lemma analyze_news_returns:
  "\<exists>out. analyze_news lib (Suc depth) w an news_text tickers use_cache = Some out"
proof -
  obtain response w2 an1 where sr: "send_request w an = (response, w2, an1)"
    by (cases "send_request w an") auto
  obtain x where
    "analyze_with_retry lib depth [0..<2] (sleep 2 w2) an1 news_text tickers = Some x"
    using analyze_with_retry_returns by blast
  with sr show ?thesis
    by (auto simp: recover_cases split: sum.splits option.splits http_outcome.splits)
qed

lemma analyze_news_no_exception:
  "utf8_encodable news_text \<Longrightarrow>
   analyze_news lib depth w an news_text tickers use_cache = Some (res, w', an') \<Longrightarrow>
   \<exists>r. res = Inr r"
  using analyze_ok[of lib depth news_text tickers] by (auto simp: result_ok_def)

section \<open>Rate limiting\<close>

text \<open>
  Each attempt of \<open>_analyze_with_retry\<close> is a whole call of \<open>analyze_news\<close>, which
  handles a further 429 by a retry loop of its own. Within the recursion limit that call
  returns a result on every encodable text, so the loop of \<open>_analyze_with_retry\<close> ends
  in its first attempt: the second attempt of \<open>range(2)\<close>, with its wait of two
  seconds, is reached only when the first one is beyond the recursion limit.
\<close>

lemma retry_first_attempt_only:
  "utf8_encodable news_text \<Longrightarrow>
   analyze_with_retry lib (Suc depth) (attempt # rest) w an news_text tickers
     = analyze_news lib (Suc depth) (sleep (2 ^ attempt) w) an news_text tickers False"
proof -
  assume enc: "utf8_encodable news_text"
  obtain out where
    first: "analyze_news lib (Suc depth) (sleep (2 ^ attempt) w) an news_text tickers False = Some out"
    using analyze_news_returns by blast
  obtain res w' an' where out: "out = (res, w', an')" by (cases out) auto
  from analyze_news_no_exception[OF enc first[unfolded out]] obtain r where "res = Inr r" ..
  with first out show ?thesis by simp
qed

text \<open>
  C4. The claim: after a 429 the call is retried at most twice, the wait doubling before
  the second retry, and after two failed retries a fallback is returned with no further
  retry. In the code, a service that answers 429 three times and 500 afterwards is asked
  a fourth time: three retries after the first request, each after a wait of 2 seconds
  (line 262) and of 1 second (line 287, attempt 0), with no doubled wait anywhere.
\<close>

theorem rate_limit_retries_not_bounded:
  "\<exists>w' an'. analyze_news test_lib (Suc (Suc (Suc (Suc 0)))) (new_world limited3) test_analyzer
       (asc ''ok'') [] True
     = Some (Inr (create_enhanced_fallback test_lib (9 * second) (asc ''ok'') []), w', an')
   \<and> posts w' = 4
   \<and> trace w' = [Post, Sleep 2, Sleep 1, Post, Sleep 2, Sleep 1, Post, Sleep 2, Sleep 1, Post]"
  by (simp add: key_ok cache_get_def test_analyzer_fields new_world_def send_request_def
        http_post_def Let_def limited3_def sleep_def upt2 second_def)

text \<open>
  When the service answers 429 to every request, only the recursion limit ends the
  retries: a call that may nest \<open>depth\<close> further calls posts \<open>depth + 1\<close> requests
  before it returns the enhanced fallback.
\<close>

lemma rate_limited_until_recursion_limit:
  assumes "\<forall>n. \<exists>body. srv n = Response 429 body"
  shows "server w = srv \<Longrightarrow> api_key an \<noteq> [] \<Longrightarrow> utf8_encodable news_text \<Longrightarrow>
     \<exists>w' an'. analyze_news lib (Suc depth) w an news_text tickers False
         = Some (Inr (create_enhanced_fallback lib (clock w') news_text tickers), w', an')
       \<and> posts w' = posts w + Suc depth \<and> server w' = srv \<and> api_key an' \<noteq> []"
proof (induction depth arbitrary: w an)
  case 0
  obtain response w2 an1 where sr: "send_request w an = (response, w2, an1)"
    by (cases "send_request w an") auto
  from assms 0(1) obtain body where "server w (posts w) = Response 429 body" by metis
  with send_request_facts[OF sr] have resp: "response = Response 429 body"
    and posts: "posts w2 = Suc (posts w)" by simp_all
  from step_ok_send_request[OF sr] 0 have st: "server w2 = srv" "api_key an1 \<noteq> []"
    by (simp_all add: step_ok_def)
  show ?case
    using 0 sr resp posts st
    by (simp add: get_cache_key_def cache_get_def upt2 sleep_def)
next
  case (Suc depth)
  obtain response w2 an1 where sr: "send_request w an = (response, w2, an1)"
    by (cases "send_request w an") auto
  from assms Suc.prems(1) obtain body where "server w (posts w) = Response 429 body" by metis
  with send_request_facts[OF sr] have resp: "response = Response 429 body"
    and posts: "posts w2 = Suc (posts w)" by simp_all
  from step_ok_send_request[OF sr] Suc.prems have st: "server w2 = srv" "api_key an1 \<noteq> []"
    by (simp_all add: step_ok_def)
  let ?w = "sleep (2 ^ 0) (sleep 2 w2)"
  have "server ?w = srv" by (simp add: st sleep_def)
  from Suc.IH[OF this st(2) Suc.prems(3)] obtain w' an' where
    inner: "analyze_news lib (Suc depth) ?w an1 news_text tickers False
         = Some (Inr (create_enhanced_fallback lib (clock w') news_text tickers), w', an')"
    and rest: "posts w' = posts ?w + Suc depth" "server w' = srv" "api_key an' \<noteq> []"
    by blast
  from inner retry_first_attempt_only[OF Suc.prems(3), of lib depth 0 "[1]" "sleep 2 w2" an1 tickers]
  have "analyze_with_retry lib (Suc depth) [0, 1] (sleep 2 w2) an1 news_text tickers
         = Some (Inr (create_enhanced_fallback lib (clock w') news_text tickers), w', an')"
    by simp
  with Suc.prems sr resp
  have "analyze_news lib (Suc (Suc depth)) w an news_text tickers False
         = Some (Inr (create_enhanced_fallback lib (clock w') news_text tickers), w', an')"
    by (simp add: get_cache_key_def cache_get_def upt2)
  moreover from rest(1) posts have "posts w' = posts w + Suc (Suc depth)"
    by (simp add: sleep_def)
  ultimately show ?case using rest(2,3) by blast
qed

section \<open>The basic fallback\<close>

lemma remote_or_enhanced_not_basic:
  "remote_or_enhanced lib t k r \<Longrightarrow> r \<noteq> create_basic_fallback t' k'"
  using basic_fallback_lookup[of t' k'] enhanced_fallback_lookup(2)[of lib _ t k]
  by (auto simp: remote_or_enhanced_def)

lemma no_folder_analyzer_fields:
  "api_key no_folder_analyzer \<noteq> []" "cache no_folder_analyzer = Map.empty"
  "cache_enabled no_folder_analyzer" "request_count no_folder_analyzer = 0"
  "folder_id no_folder_analyzer = []"
  by (simp_all add: no_folder_analyzer_def new_analyzer_def asc_simps)

lemma no_folder_run:
  "analyze_news test_lib (Suc 0) (new_world bad_request) no_folder_analyzer (asc ''ok'') [] True
     = Some (Inr (create_enhanced_fallback test_lib 0 (asc ''ok'') []),
             (new_world bad_request)\<lparr>posts := 1, trace := [Post]\<rparr>,
             no_folder_analyzer\<lparr>request_count := 1\<rparr>)"
  by (simp add: key_ok cache_get_def no_folder_analyzer_fields new_world_def send_request_def
        http_post_def Let_def bad_request_def)

lemma cache_inv_empty: "cache an = Map.empty \<Longrightarrow> cache_inv an"
  by (simp add: cache_inv_def)

text \<open>
  C5. The claim: the basic fallback is returned whenever the API key or the folder
  identifier is missing, and only then. \<open>analyze_news\<close> looks at the API key alone
  (line 136): without an API key every call returns the basic fallback at once; with an
  API key and a cache holding remote results only, no call returns a basic fallback,
  whatever the folder identifier is.
\<close>

theorem basic_fallback_iff_no_api_key:
  "(api_key an = [] \<longrightarrow>
      analyze_news lib (Suc depth) w an news_text tickers use_cache
        = Some (Inr (create_basic_fallback news_text tickers), w, an))
   \<and> (api_key an \<noteq> [] \<and> cache_inv an
        \<and> analyze_news lib depth w an news_text tickers use_cache = Some (Inr r, w', an')
      \<longrightarrow> r \<noteq> create_basic_fallback text' tickers')"
proof -
  have "r \<noteq> create_basic_fallback text' tickers'"
    if "api_key an \<noteq> []" "cache_inv an"
       "analyze_news lib depth w an news_text tickers use_cache = Some (Inr r, w', an')"
  proof -
    from analyze_ok[of lib depth news_text tickers] that(3)
    have "result_ok lib news_text tickers an (Inr r)" by blast
    with that(1,2) have "remote_or_enhanced lib news_text tickers r"
      by (simp add: result_ok_def)
    then show ?thesis by (rule remote_or_enhanced_not_basic)
  qed
  then show ?thesis by simp
qed

theorem basic_fallback_iff_no_api_key_witness:
  "api_key (new_analyzer [] [] []) = []
   \<and> analyze_news test_lib (Suc 0) (new_world bad_request) (new_analyzer [] [] []) (asc ''ok'') [] True
        = Some (Inr (create_basic_fallback (asc ''ok'') []), new_world bad_request, new_analyzer [] [] [])
   \<and> api_key no_folder_analyzer \<noteq> [] \<and> cache_inv no_folder_analyzer
   \<and> analyze_news test_lib (Suc 0) (new_world bad_request) no_folder_analyzer (asc ''ok'') [] True
     = Some (Inr (create_enhanced_fallback test_lib 0 (asc ''ok'') []),
             (new_world bad_request)\<lparr>posts := 1, trace := [Post]\<rparr>,
             no_folder_analyzer\<lparr>request_count := 1\<rparr>)
   \<and> create_enhanced_fallback test_lib 0 (asc ''ok'') [] \<noteq> create_basic_fallback (asc ''ok'') []"
proof -
  have k: "api_key (new_analyzer [] [] []) = []" by (simp add: new_analyzer_def)
  have inv: "cache_inv no_folder_analyzer"
    by (rule cache_inv_empty) (rule no_folder_analyzer_fields)
  note thm1 = basic_fallback_iff_no_api_key[of "new_analyzer [] [] []" test_lib 0 "new_world bad_request"
      "asc ''ok''" "[]" True]
  note thm2 = basic_fallback_iff_no_api_key[of no_folder_analyzer test_lib "Suc 0" "new_world bad_request"
      "asc ''ok''" "[]" True "create_enhanced_fallback test_lib 0 (asc ''ok'') []"
      "(new_world bad_request)\<lparr>posts := 1, trace := [Post]\<rparr>"
      "no_folder_analyzer\<lparr>request_count := 1\<rparr>" "asc ''ok''" "[]"]
  from thm1 k have a: "analyze_news test_lib (Suc 0) (new_world bad_request) (new_analyzer [] [] []) (asc ''ok'') [] True
        = Some (Inr (create_basic_fallback (asc ''ok'') []), new_world bad_request, new_analyzer [] [] [])"
    by blast
  from thm2 no_folder_analyzer_fields(1) inv no_folder_run
  have b: "create_enhanced_fallback test_lib 0 (asc ''ok'') [] \<noteq> create_basic_fallback (asc ''ok'') []"
    by blast
  from k a no_folder_analyzer_fields(1) inv no_folder_run b show ?thesis by (intro conjI)
qed

text \<open>
  With an API key and no folder identifier the request is posted; the service refuses
  it and the result is the enhanced fallback, not the basic one.
\<close>

theorem basic_fallback_missing_folder_counterexample:
  "folder_id no_folder_analyzer = []
   \<and> analyze_news test_lib (Suc 0) (new_world bad_request) no_folder_analyzer (asc ''ok'') [] True
     = Some (Inr (create_enhanced_fallback test_lib 0 (asc ''ok'') []),
             (new_world bad_request)\<lparr>posts := 1, trace := [Post]\<rparr>,
             no_folder_analyzer\<lparr>request_count := 1\<rparr>)
   \<and> create_enhanced_fallback test_lib 0 (asc ''ok'') [] \<noteq> create_basic_fallback (asc ''ok'') []"
  using no_folder_run no_folder_analyzer_fields(5)
    remote_or_enhanced_not_basic[OF remote_or_enhanced_fallback, of test_lib 0 "asc ''ok''" "[]" "asc ''ok''" "[]"]
  by simp

section \<open>Reading and writing one cache entry\<close>

lemma day_pos: "0 < day"
  by (simp add: day_def second_def)

lemma cache_get_Some:
  "cache_get an key use_cache now = Some r \<longleftrightarrow>
     use_cache \<and> cache_enabled an
     \<and> (\<exists>e. cache an key = Some e \<and> data e = r \<and> now - timestamp e < day)"
  by (auto simp: cache_get_def split: option.splits)

lemma cache_get_stale:
  "cache an key = Some e \<Longrightarrow> day \<le> now - timestamp e \<Longrightarrow> cache_get an key use_cache now = None"
  by (simp add: cache_get_def)

lemma cache_put_stored:
  assumes "cache_put w an ck True r = (w', an')" "cache_enabled an"
  shows "cache an' ck = Some \<lparr>timestamp = clock w, data = r\<rparr> \<and> clock w' = clock w
         \<and> posts w' = posts w \<and> cache_enabled an' \<and> api_key an' = api_key an"
  using assms day_pos
  by (auto simp: cache_put_def save_cache_enabled prune_def split: if_splits)

lemma handle_200_stored:
  assumes "handle_200 lib w an t k True ck body = (Inr r, w', an')"
    and "py_lookup r (asc ''is_fallback'') = Some (PBool False)"
    and "cache_enabled an"
  shows "cache an' ck = Some \<lparr>timestamp = clock w, data = r\<rparr> \<and> clock w' = clock w
         \<and> cache_enabled an' \<and> api_key an' = api_key an"
  using assms
  by (auto simp: handle_200_def Let_def enhanced_fallback_lookup
      dest: cache_put_stored
      split: option.splits sum.splits if_splits prod.splits)

lemma handle_200_cache:
  assumes "handle_200 lib w an t k uc ck body = (res, w', an')"
  shows "posts w' = posts w
         \<and> (cache an' = cache an
             \<or> (\<exists>r. res = Inr r \<and> cache an' ck = Some \<lparr>timestamp = clock w, data = r\<rparr>))"
proof -
  have put: "posts w1 = posts w
         \<and> (cache an1 = cache an \<or> cache an1 ck = Some \<lparr>timestamp = clock w, data = r\<rparr>)"
    if "cache_put w an ck uc r = (w1, an1)" for r w1 an1
  proof (cases "uc \<and> cache_enabled an")
    case True
    with that cache_put_stored[of w an ck r w1 an1] show ?thesis by simp
  next
    case False
    with that show ?thesis by (auto simp: cache_put_def)
  qed
  from assms show ?thesis
    by (auto simp: handle_200_def Let_def dest!: put
        split: option.splits sum.splits if_splits prod.splits)
qed

section \<open>Runs of \<open>analyze_news\<close> on the text \<open>ok\<close>\<close>

lemma extract_ok:
  "extract_json_from_response test_lib (PStr summary_ok_json)
     = PDict [(asc ''summary'', PStr (asc ''ok''))]"
proof -
  have 1: "re_search (Fenced (backticks @ asc ''json'' @ [10])) summary_ok_json = None"
    by (simp add: backticks_def fence_close_def summary_ok_json_def asc_simps)
  have 2: "re_search (Fenced (backticks @ [10])) summary_ok_json = None"
    by (simp add: backticks_def fence_close_def summary_ok_json_def asc_simps)
  have 3: "re_search Braces summary_ok_json = Some summary_ok_json"
    by (simp add: summary_ok_json_def asc_simps rfind_sub_def)
  have 4: "json_loads test_lib summary_ok_json = Some (PDict [(asc ''summary'', PStr (asc ''ok''))])"
    by (simp add: test_lib_def loads_basic_def)
  show ?thesis using 4 unfolding extract_json_cases 1 2 3 by simp
qed

lemma completion_text_ok: "completion_text (completion_body ai_text) = Inr (PStr ai_text)"
  by (simp add: completion_text_def completion_body_def asc_simps)

lemma metadata_at:
  "add_metadata test_lib now (asc ''ok'') (PDict [(asc ''summary'', PStr (asc ''ok''))])
     = Inr (remote_result_at now)"
  by (simp add: add_metadata_def remote_result_at_def test_lib_def md5_basic_def
        asc_simps update_conv')

lemma metadata_ok:
  "add_metadata test_lib 0 (asc ''ok'') (PDict [(asc ''summary'', PStr (asc ''ok''))])
     = Inr remote_result"
  by (simp add: metadata_at remote_result_def)

lemma usable_ok: "usable (PDict [(asc ''summary'', PStr (asc ''ok''))]) = Inr True"
  by (simp add: usable_def asc_simps)

lemma prune_singleton:
  "\<not> ts < cutoff \<Longrightarrow> prune cutoff [key \<mapsto> \<lparr>timestamp = ts, data = r\<rparr>]
     = [key \<mapsto> \<lparr>timestamp = ts, data = r\<rparr>]"
  by (auto simp: prune_def fun_eq_iff)

lemma remote_result_at_is_fallback:
  "py_lookup (remote_result_at now) (asc ''is_fallback'') = Some (PBool False)"
  by (simp add: remote_result_at_def asc_simps)

lemma remote_result_is_fallback:
  "py_lookup remote_result (asc ''is_fallback'') = Some (PBool False)"
  by (simp add: remote_result_def remote_result_at_is_fallback)

lemma stored_analyzer_fields:
  "api_key stored_analyzer \<noteq> []" "cache_enabled stored_analyzer"
  "cache stored_analyzer = [ok_key \<mapsto> \<lparr>timestamp = 0, data = remote_result\<rparr>]"
  "request_count stored_analyzer = 1"
  by (simp_all add: stored_analyzer_def cached_analyzer_def test_analyzer_fields)

lemma cached_analyzer_fields:
  "api_key (cached_analyzer ts) \<noteq> []" "cache_enabled (cached_analyzer ts)"
  "cache (cached_analyzer ts) = [ok_key \<mapsto> \<lparr>timestamp = ts, data = remote_result\<rparr>]"
  "request_count (cached_analyzer ts) = 0"
  by (simp_all add: cached_analyzer_def test_analyzer_fields)

lemma ok_key_eq: "get_cache_key test_lib (asc ''ok'') (asc ''news'') = Inr ok_key"
  by (simp add: key_ok ok_key_def)

lemma ok_run:
  "analyze_news test_lib (Suc 0) (new_world answers_ok) test_analyzer (asc ''ok'') [] True
     = Some (Inr remote_result, stored_world, stored_analyzer)"
  by (simp add: key_ok cache_get_def test_analyzer_fields new_world_def send_request_def
        http_post_def Let_def answers_ok_def handle_200_def completion_text_ok extract_ok
        usable_ok metadata_ok cache_put_def save_cache_enabled prune_singleton day_def second_def
        stored_world_def stored_analyzer_def cached_analyzer_def ok_key_def)

lemma uncached_run:
  "analyze_news test_lib (Suc 0) (new_world answers_ok) test_analyzer (asc ''ok'') [] False
     = Some (Inr remote_result, (new_world answers_ok)\<lparr>posts := 1, trace := [Post]\<rparr>,
             test_analyzer\<lparr>request_count := 1\<rparr>)"
  by (simp add: key_ok cache_get_def test_analyzer_fields new_world_def send_request_def
        http_post_def Let_def answers_ok_def handle_200_def completion_text_ok extract_ok
        usable_ok metadata_ok cache_put_def)

lemma retry_level_run:
  "analyze_with_retry test_lib (Suc 0) [0, 1] (new_world answers_ok) test_analyzer (asc ''ok'') []
     = Some (Inr (remote_result_at second),
             (new_world answers_ok)\<lparr>clock := second, posts := 1, trace := [Sleep 1, Post]\<rparr>,
             test_analyzer\<lparr>request_count := 1\<rparr>)"
  by (simp add: key_ok cache_get_def test_analyzer_fields new_world_def send_request_def
        http_post_def Let_def answers_ok_def handle_200_def completion_text_ok extract_ok
        usable_ok metadata_at cache_put_def sleep_def)

lemma retried_run:
  "analyze_news test_lib (Suc (Suc 0)) (new_world limited_then_ok) test_analyzer (asc ''ok'') [] True
     = Some (Inr (remote_result_at (3 * second)),
             (new_world limited_then_ok)\<lparr>clock := 3 * second, posts := 2,
                trace := [Post, Sleep 2, Sleep 1, Post]\<rparr>,
             test_analyzer\<lparr>request_count := 2\<rparr>)"
  by (simp add: key_ok cache_get_def test_analyzer_fields new_world_def send_request_def
        http_post_def Let_def limited_then_ok_def handle_200_def completion_text_ok extract_ok
        usable_ok metadata_at cache_put_def sleep_def upt2)

lemma stale_run:
  "analyze_news test_lib (Suc 0) stale_world (cached_analyzer 0) (asc ''ok'') [] True
     = Some (Inr (create_enhanced_fallback test_lib (2 * day) (asc ''ok'') []),
             stale_world\<lparr>posts := 1, trace := [Post]\<rparr>, stored_analyzer)"
  by (simp add: ok_key_eq cache_get_def cached_analyzer_fields stale_world_def world_at_def
        new_world_def send_request_def http_post_def Let_def bad_request_def
        stored_analyzer_def day_def second_def)

section \<open>Freshness of a cache entry\<close>

lemma stale_entry_kept:
  assumes key: "api_key an \<noteq> []"
    and ck: "get_cache_key lib t (asc ''news'') = Inr key"
    and stale: "cache an key = Some e" "day \<le> clock w - timestamp e"
    and run: "analyze_news lib depth w an t k uc = Some (res, w', an')"
  shows "posts w < posts w'
         \<and> (\<exists>e'. cache an' key = Some e'
               \<and> (e' = e \<or> (res = Inr (data e') \<and> clock w \<le> timestamp e')))"
proof -
  from run obtain d where depth: "depth = Suc d" by (cases depth) auto
  have miss: "cache_get an key uc (clock w) = None"
    using stale by (rule cache_get_stale)
  from run[unfolded depth] show ?thesis
  proof (cases rule: analyze_news_Suc_cases)
    case no_key
    with key show ?thesis by simp
  next
    case (unencodable e)
    with ck show ?thesis by simp
  next
    case (hit ck' c)
    with ck miss show ?thesis by simp
  next
    case (ok200 ck' w2 an1 body)
    from ok200(2) ck have ck': "ck' = key" by simp
    obtain res0 w0 an0 where h: "handle_200 lib w2 an1 t k uc key body = (res0, w0, an0)"
      by (cases "handle_200 lib w2 an1 t k uc key body") auto
    from send_request_facts[OF ok200(4)] have sr: "posts w2 = Suc (posts w)" "cache an1 = cache an"
      by simp_all
    from step_ok_send_request[OF ok200(4)] have clk: "clock w \<le> clock w2"
      by (simp add: step_ok_def)
    from ok200(5) h ck' have out: "w' = w0" "an' = an0" "\<And>r. res0 = Inr r \<Longrightarrow> res = Inr r"
      by (auto simp: recover_cases split: sum.splits)
    from handle_200_cache[OF h] sr stale(1) clk out show ?thesis by auto
  next
    case (other_status ck' w2 an1 status body)
    from send_request_facts[OF other_status(4)] other_status(7) stale(1) show ?thesis by simp
  next
    case (raised ck' w2 an1 response)
    from send_request_facts[OF raised(4)] raised(6) stale(1) show ?thesis by simp
  next
    case (retry ck' w2 an1 body x)
    obtain res0 w0 an0 where x: "x = (res0, w0, an0)" by (cases x) auto
    from analyze_ok[of lib d t k] retry(5)[unfolded x]
    have st: "step_ok False (sleep 2 w2) an1 w0 an0" by blast
    from send_request_facts[OF retry(4)] have sr: "posts w2 = Suc (posts w)" "cache an1 = cache an"
      by simp_all
    from retry(6) x have out: "w' = w0" "an' = an0"
      by (auto simp: recover_cases split: sum.splits)
    from st sr stale(1) out show ?thesis by (auto simp: step_ok_def sleep_def)
  qed
qed

text \<open>
  C6. A cache read returns a stored result only when the key has an entry whose age is
  under one day; an entry of one day or more is treated as absent. A call of
  \<open>analyze_news\<close> that finds such an entry for its text posts a request, and when it
  returns the key still has an entry: the old one, or the result of this call, stored
  during it. The read deletes nothing.
\<close>

theorem cache_read_fresh_only:
  "(cache_get an key use_cache now = Some r \<longrightarrow>
      (\<exists>e. cache an key = Some e \<and> data e = r \<and> now - timestamp e < day))
   \<and> (cache an key = Some e \<and> day \<le> now - timestamp e \<longrightarrow>
        cache_get an key use_cache now = None)
   \<and> (api_key an \<noteq> [] \<and> get_cache_key lib news_text (asc ''news'') = Inr key
        \<and> cache an key = Some e \<and> day \<le> clock w - timestamp e
        \<and> analyze_news lib depth w an news_text tickers use_cache = Some (res, w', an')
      \<longrightarrow> posts w < posts w'
          \<and> (\<exists>e'. cache an' key = Some e'
                \<and> (e' = e \<or> (res = Inr (data e') \<and> clock w \<le> timestamp e'))))"
proof -
  have 1: "cache_get an key use_cache now = Some r \<longrightarrow>
      (\<exists>e. cache an key = Some e \<and> data e = r \<and> now - timestamp e < day)"
    by (auto simp: cache_get_Some)
  have 2: "cache an key = Some e \<and> day \<le> now - timestamp e \<longrightarrow>
        cache_get an key use_cache now = None"
    by (simp add: cache_get_stale)
  have 3: "api_key an \<noteq> [] \<and> get_cache_key lib news_text (asc ''news'') = Inr key
        \<and> cache an key = Some e \<and> day \<le> clock w - timestamp e
        \<and> analyze_news lib depth w an news_text tickers use_cache = Some (res, w', an')
      \<longrightarrow> posts w < posts w'
          \<and> (\<exists>e'. cache an' key = Some e'
                \<and> (e' = e \<or> (res = Inr (data e') \<and> clock w \<le> timestamp e')))"
    using stale_entry_kept[of an lib news_text key e w depth tickers use_cache res w' an'] by blast
  from 1 2 3 show ?thesis by (intro conjI)
qed

theorem cache_read_fresh_only_witness:
  "cache_get (cached_analyzer 0) ok_key True (day - 1) = Some remote_result
   \<and> (\<exists>e. cache (cached_analyzer 0) ok_key = Some e \<and> data e = remote_result
          \<and> (day - 1) - timestamp e < day)
   \<and> cache (cached_analyzer 0) ok_key = Some \<lparr>timestamp = 0, data = remote_result\<rparr>
   \<and> day \<le> clock stale_world - timestamp \<lparr>timestamp = 0, data = remote_result\<rparr>
   \<and> cache_get (cached_analyzer 0) ok_key True (clock stale_world) = None
   \<and> api_key (cached_analyzer 0) \<noteq> []
   \<and> get_cache_key test_lib (asc ''ok'') (asc ''news'') = Inr ok_key
   \<and> analyze_news test_lib (Suc 0) stale_world (cached_analyzer 0) (asc ''ok'') [] True
        = Some (Inr (create_enhanced_fallback test_lib (2 * day) (asc ''ok'') []),
                stale_world\<lparr>posts := 1, trace := [Post]\<rparr>, stored_analyzer)
   \<and> posts stale_world < posts (stale_world\<lparr>posts := 1, trace := [Post]\<rparr>)
   \<and> cache stored_analyzer ok_key = Some \<lparr>timestamp = 0, data = remote_result\<rparr>"
proof -
  let ?e = "\<lparr>timestamp = 0, data = remote_result\<rparr>"
  have fresh: "cache_get (cached_analyzer 0) ok_key True (day - 1) = Some remote_result"
    by (simp add: cache_get_def cached_analyzer_fields)
  have entry: "cache (cached_analyzer 0) ok_key = Some ?e"
    by (simp add: cached_analyzer_fields)
  have old: "day \<le> clock stale_world - timestamp ?e"
    by (simp add: stale_world_def world_at_def day_def second_def)
  have key: "api_key (cached_analyzer 0) \<noteq> []" by (rule cached_analyzer_fields)
  have kept: "cache stored_analyzer ok_key = Some ?e"
    by (simp add: stored_analyzer_fields)
  note read = cache_read_fresh_only[of "cached_analyzer 0" ok_key True "day - 1" remote_result]
  note call = cache_read_fresh_only[of "cached_analyzer 0" ok_key True "clock stale_world" _ ?e
      test_lib "asc ''ok''" stale_world "Suc 0" "[]"
      "Inr (create_enhanced_fallback test_lib (2 * day) (asc ''ok'') [])"
      "stale_world\<lparr>posts := 1, trace := [Post]\<rparr>" stored_analyzer]
  from read fresh
  have ex: "\<exists>e. cache (cached_analyzer 0) ok_key = Some e \<and> data e = remote_result
          \<and> (day - 1) - timestamp e < day"
    by blast
  from call entry old
  have miss: "cache_get (cached_analyzer 0) ok_key True (clock stale_world) = None"
    by blast
  from call key ok_key_eq entry old stale_run
  have posted: "posts stale_world < posts (stale_world\<lparr>posts := 1, trace := [Post]\<rparr>)"
    by blast
  from fresh ex entry old miss key ok_key_eq stale_run posted kept show ?thesis by (intro conjI)
qed

section \<open>Round trip through the cache\<close>

lemma repeat_returns_stored:
  assumes en: "cache_enabled an"
    and srv: "server w (posts w) = Response 200 body"
    and run: "analyze_news lib (Suc d) w an t k True = Some (Inr r, w', an')"
    and remote: "py_lookup r (asc ''is_fallback'') = Some (PBool False)"
  shows "analyze_news lib (Suc d') w' an' t k True = Some (Inr r, w', an')"
  using run
proof (cases rule: analyze_news_Suc_cases)
  case no_key
  with remote basic_fallback_lookup(1)[of t k] show ?thesis by simp
next
  case (unencodable e)
  then show ?thesis by simp
next
  case (hit ck c)
  then show ?thesis by simp
next
  case (ok200 ck w2 an1 body')
  obtain res0 w0 an0 where h: "handle_200 lib w2 an1 t k True ck body' = (res0, w0, an0)"
    by (cases "handle_200 lib w2 an1 t k True ck body'") auto
  from ok200(5) h remote enhanced_fallback_lookup(1)[of lib "clock w0" t k]
  have res0: "res0 = Inr r" "w0 = w'" "an0 = an'"
    by (auto simp: recover_cases split: sum.splits)
  from send_request_facts[OF ok200(4)] en ok200(1)
  have an1: "cache_enabled an1" "api_key an1 \<noteq> []" by simp_all
  from handle_200_stored[OF h[unfolded res0] remote an1(1)] an1(2)
  have "cache an' ck = Some \<lparr>timestamp = clock w2, data = r\<rparr>" "clock w' = clock w2"
    "cache_enabled an'" "api_key an' \<noteq> []"
    by simp_all
  then have "cache_get an' ck True (clock w') = Some r" "api_key an' \<noteq> []"
    using day_pos by (simp_all add: cache_get_def)
  with ok200(2) show ?thesis by simp
next
  case (other_status ck w2 an1 status body')
  with send_request_facts[OF other_status(4)] srv show ?thesis by simp
next
  case (raised ck w2 an1 response)
  with send_request_facts[OF raised(4)] srv show ?thesis by simp
next
  case (retry ck w2 an1 body' x)
  with send_request_facts[OF retry(4)] srv show ?thesis by simp
qed

text \<open>
  C9. With caching enabled, a result stored under a key is what a read of that key
  returns, as long as less than a day has passed; and when a call is answered with
  status 200 and returns a remote result, the same call repeated at once returns the
  same result from the cache, leaving the world and the analyzer as they are.
\<close>

theorem cache_round_trip:
  "(cache_enabled an \<and> now - clock w < day \<longrightarrow>
      cache_get (snd (cache_put w an key True r)) key True now = Some r)
   \<and> (cache_enabled an \<and> server w (posts w) = Response 200 body
        \<and> analyze_news lib (Suc depth) w an news_text tickers True = Some (Inr r, w', an')
        \<and> py_lookup r (asc ''is_fallback'') = Some (PBool False)
      \<longrightarrow> analyze_news lib (Suc depth') w' an' news_text tickers True = Some (Inr r, w', an'))"
proof -
  have "cache_get (snd (cache_put w an key True r)) key True now = Some r"
    if "cache_enabled an" "now - clock w < day"
    using that
    by (simp add: cache_put_def save_cache_enabled cache_get_def prune_def day_def second_def)
  moreover have "analyze_news lib (Suc depth') w' an' news_text tickers True = Some (Inr r, w', an')"
    if "cache_enabled an" "server w (posts w) = Response 200 body"
       "analyze_news lib (Suc depth) w an news_text tickers True = Some (Inr r, w', an')"
       "py_lookup r (asc ''is_fallback'') = Some (PBool False)"
    using that by (rule repeat_returns_stored)
  ultimately show ?thesis by blast
qed

theorem cache_round_trip_witness:
  "cache_enabled test_analyzer \<and> 0 - clock (new_world answers_ok) < day
   \<and> cache_get (snd (cache_put (new_world answers_ok) test_analyzer ok_key True remote_result))
        ok_key True 0 = Some remote_result
   \<and> server (new_world answers_ok) (posts (new_world answers_ok))
        = Response 200 (Some (completion_body summary_ok_json))
   \<and> analyze_news test_lib (Suc 0) (new_world answers_ok) test_analyzer (asc ''ok'') [] True
        = Some (Inr remote_result, stored_world, stored_analyzer)
   \<and> py_lookup remote_result (asc ''is_fallback'') = Some (PBool False)
   \<and> analyze_news test_lib (Suc 0) stored_world stored_analyzer (asc ''ok'') [] True
        = Some (Inr remote_result, stored_world, stored_analyzer)"
proof -
  have en: "cache_enabled test_analyzer" by (rule test_analyzer_fields)
  have now: "0 - clock (new_world answers_ok) < day"
    by (simp add: new_world_def day_def second_def)
  have srv: "server (new_world answers_ok) (posts (new_world answers_ok))
        = Response 200 (Some (completion_body summary_ok_json))"
    by (simp add: new_world_def answers_ok_def)
  note inst = cache_round_trip[of test_analyzer 0 "new_world answers_ok" ok_key remote_result
      "Some (completion_body summary_ok_json)" test_lib 0 "asc ''ok''" "[]"
      stored_world stored_analyzer 0]
  from inst en now
  have get: "cache_get (snd (cache_put (new_world answers_ok) test_analyzer ok_key True remote_result))
        ok_key True 0 = Some remote_result"
    by blast
  from inst en srv ok_run remote_result_is_fallback
  have again: "analyze_news test_lib (Suc 0) stored_world stored_analyzer (asc ''ok'') [] True
        = Some (Inr remote_result, stored_world, stored_analyzer)"
    by blast
  from en now get srv ok_run remote_result_is_fallback again show ?thesis by (intro conjI)
qed

section \<open>Retention\<close>








lemma clear_cache_cases:
  "(\<exists>c. clear_cache older_than_days w an = (Inr PNone, save_cache w (an\<lparr>cache := c\<rparr>)))
   \<or> clear_cache older_than_days w an = (Inl OverflowError, w, an)"
  by (cases older_than_days) (auto simp: clear_cache_def Let_def)











section \<open>The cache holds remote results only\<close>

lemma cache_inv_save_cache: "cache_inv an \<Longrightarrow> cache_inv (snd (save_cache w an))"
  by (cases "cache_enabled an") (simp_all add: save_cache_enabled save_cache_disabled cache_inv_prune)

lemma cache_inv_cache_update: "cache_inv (an\<lparr>cache := Map.empty\<rparr>)"
  by (simp add: cache_inv_def)

lemma cache_inv_clear_cache:
  assumes "cache_inv an"
  shows "cache_inv (snd (snd (clear_cache n w an)))"
proof -
  from clear_cache_cases[of n w an]
  consider c where "clear_cache n w an = (Inr PNone, save_cache w (an\<lparr>cache := c\<rparr>))"
      "c = Map.empty \<or> (\<exists>cutoff. c = prune cutoff (cache an))"
    | "clear_cache n w an = (Inl OverflowError, w, an)"
    by (cases n) (auto simp: clear_cache_def Let_def split: if_splits)
  then show ?thesis
  proof cases
    case (1 c)
    from 1(2) assms have "cache_inv (an\<lparr>cache := c\<rparr>)"
      by (auto simp: cache_inv_cache_update cache_inv_prune)
    with 1(1) show ?thesis by (simp add: cache_inv_save_cache)
  next
    case 2
    with assms show ?thesis by simp
  qed
qed


lemma cache_inv_enable_cache: "cache_inv an \<Longrightarrow> cache_inv (enable_cache b an)"
  by (simp add: cache_inv_def enable_cache_def)

lemma cache_inv_not_fallback:
  assumes "cache_inv an" "cache an key = Some e"
  shows "data e \<noteq> create_basic_fallback t k \<and> data e \<noteq> create_enhanced_fallback lib now t k"
proof -
  from assms have "py_lookup (data e) (asc ''is_fallback'') = Some (PBool False)"
    by (simp add: cache_inv_def)
  with basic_fallback_lookup(1)[of t k] enhanced_fallback_lookup(1)[of lib now t k]
  show ?thesis by auto
qed

lemma rate_limited_call_keeps_cache:
  assumes srv: "server w (posts w) = Response 429 body"
    and run: "analyze_news lib depth w an t k uc = Some (res, w', an')"
  shows "cache an' = cache an"
proof -
  from run obtain d where depth: "depth = Suc d" by (cases depth) auto
  from run[unfolded depth] show ?thesis
  proof (cases rule: analyze_news_Suc_cases)
    case no_key
    then show ?thesis by simp
  next
    case (unencodable e)
    then show ?thesis by simp
  next
    case (hit ck c)
    then show ?thesis by simp
  next
    case (ok200 ck w2 an1 body')
    with send_request_facts[OF ok200(4)] srv show ?thesis by simp
  next
    case (other_status ck w2 an1 status body')
    with send_request_facts[OF other_status(4)] srv show ?thesis by simp
  next
    case (raised ck w2 an1 response)
    with send_request_facts[OF raised(4)] srv show ?thesis by simp
  next
    case (retry ck w2 an1 body' x)
    obtain res0 w0 an0 where x: "x = (res0, w0, an0)" by (cases x) auto
    from analyze_ok[of lib d t k] retry(5)[unfolded x]
    have st: "step_ok False (sleep 2 w2) an1 w0 an0" by blast
    from send_request_facts[OF retry(4)] have sr: "cache an1 = cache an" by simp
    from retry(6) x have out: "an' = an0"
      by (auto simp: recover_cases split: sum.splits)
    from st sr out show ?thesis by (simp add: step_ok_def)
  qed
qed

text \<open>
  C10. Every entry of the cache holds a result with \<open>is_fallback = False\<close>: this holds
  of a new analyzer and is kept by \<open>_save_cache\<close>, \<open>clear_cache\<close>, \<open>enable_cache\<close> and
  every call of \<open>analyze_news\<close> that returns. A call with \<open>use_cache = False\<close>, a run
  of \<open>_analyze_with_retry\<close> and a call whose request is answered with 429 leave the
  cache as it was, whatever they return. No entry of such a cache is a basic or an
  enhanced fallback.
\<close>

theorem cache_holds_remote_results_only:
  "cache_inv (new_analyzer key folder cloud)
   \<and> (cache_inv an \<longrightarrow>
        cache_inv (snd (save_cache w an)) \<and> cache_inv (snd (snd (clear_cache n w an)))
        \<and> cache_inv (enable_cache b an))
   \<and> (cache_inv an \<and> analyze_news lib depth w an news_text tickers use_cache = Some (res, w', an')
        \<longrightarrow> cache_inv an')
   \<and> (analyze_news lib depth w an news_text tickers False = Some (res, w', an')
        \<longrightarrow> cache an' = cache an)
   \<and> (analyze_with_retry lib depth attempts w an news_text tickers = Some (res, w', an')
        \<longrightarrow> cache an' = cache an)
   \<and> (server w (posts w) = Response 429 body
        \<and> analyze_news lib depth w an news_text tickers use_cache = Some (res, w', an')
        \<longrightarrow> cache an' = cache an)
   \<and> (cache_inv an \<and> cache an ck = Some e
        \<longrightarrow> data e \<noteq> create_basic_fallback text' tickers'
          \<and> data e \<noteq> create_enhanced_fallback lib now text' tickers')"
proof -
  note ok = analyze_ok[of lib depth news_text tickers]
  have 1: "cache_inv (new_analyzer key folder cloud)"
    by (rule cache_inv_empty) (simp add: new_analyzer_def)
  have 2: "cache_inv an \<longrightarrow>
        cache_inv (snd (save_cache w an)) \<and> cache_inv (snd (snd (clear_cache n w an)))
        \<and> cache_inv (enable_cache b an)"
    by (simp add: cache_inv_save_cache cache_inv_clear_cache cache_inv_enable_cache)
  have 3: "cache_inv an \<and> analyze_news lib depth w an news_text tickers use_cache = Some (res, w', an')
        \<longrightarrow> cache_inv an'"
    using ok by (auto simp: step_ok_def)
  have 4: "analyze_news lib depth w an news_text tickers False = Some (res, w', an')
        \<longrightarrow> cache an' = cache an"
    using ok by (auto simp: step_ok_def)
  have 5: "analyze_with_retry lib depth attempts w an news_text tickers = Some (res, w', an')
        \<longrightarrow> cache an' = cache an"
    using ok by (auto simp: step_ok_def)
  have 6: "server w (posts w) = Response 429 body
        \<and> analyze_news lib depth w an news_text tickers use_cache = Some (res, w', an')
        \<longrightarrow> cache an' = cache an"
    using rate_limited_call_keeps_cache[of w body lib depth an news_text tickers use_cache res w' an']
    by blast
  have 7: "cache_inv an \<and> cache an ck = Some e
        \<longrightarrow> data e \<noteq> create_basic_fallback text' tickers'
          \<and> data e \<noteq> create_enhanced_fallback lib now text' tickers'"
    using cache_inv_not_fallback[of an ck e text' tickers' lib now] by blast
  from 1 2 3 4 5 6 7 show ?thesis by (intro conjI)
qed

theorem cache_holds_remote_results_only_witness:
  "cache_inv test_analyzer
   \<and> analyze_news test_lib (Suc 0) (new_world answers_ok) test_analyzer (asc ''ok'') [] True
        = Some (Inr remote_result, stored_world, stored_analyzer)
   \<and> cache_inv stored_analyzer
   \<and> cache stored_analyzer ok_key = Some \<lparr>timestamp = 0, data = remote_result\<rparr>
   \<and> remote_result \<noteq> create_basic_fallback (asc ''ok'') []
   \<and> remote_result \<noteq> create_enhanced_fallback test_lib 0 (asc ''ok'') []
   \<and> cache_inv (snd (save_cache stored_world stored_analyzer))
   \<and> cache_inv (snd (snd (clear_cache (Some 1) stored_world stored_analyzer)))
   \<and> cache_inv (enable_cache False stored_analyzer)
   \<and> analyze_news test_lib (Suc 0) (new_world answers_ok) test_analyzer (asc ''ok'') [] False
        = Some (Inr remote_result, (new_world answers_ok)\<lparr>posts := 1, trace := [Post]\<rparr>,
                test_analyzer\<lparr>request_count := 1\<rparr>)
   \<and> cache (test_analyzer\<lparr>request_count := 1\<rparr>) = cache test_analyzer
   \<and> analyze_with_retry test_lib (Suc 0) [0, 1] (new_world answers_ok) test_analyzer (asc ''ok'') []
        = Some (Inr (remote_result_at second),
                (new_world answers_ok)\<lparr>clock := second, posts := 1, trace := [Sleep 1, Post]\<rparr>,
                test_analyzer\<lparr>request_count := 1\<rparr>)
   \<and> server (new_world limited_then_ok) (posts (new_world limited_then_ok)) = Response 429 None
   \<and> analyze_news test_lib (Suc (Suc 0)) (new_world limited_then_ok) test_analyzer (asc ''ok'') [] True
        = Some (Inr (remote_result_at (3 * second)),
                (new_world limited_then_ok)\<lparr>clock := 3 * second, posts := 2,
                   trace := [Post, Sleep 2, Sleep 1, Post]\<rparr>,
                test_analyzer\<lparr>request_count := 2\<rparr>)
   \<and> py_lookup (remote_result_at (3 * second)) (asc ''is_fallback'') = Some (PBool False)
   \<and> cache (test_analyzer\<lparr>request_count := 2\<rparr>) = cache test_analyzer"
proof -
  let ?e = "\<lparr>timestamp = 0, data = remote_result\<rparr>"
  note first = cache_holds_remote_results_only[of "asc ''key''" "asc ''folder''" "asc ''cloud''"
      test_analyzer "new_world answers_ok" _ _ test_lib "Suc 0" "asc ''ok''" "[]" True
      "Inr remote_result" stored_world stored_analyzer]
  note stored = cache_holds_remote_results_only[of _ _ _
      stored_analyzer stored_world "Some 1" False test_lib _ _ _ _ _ _ _ _ _ ok_key ?e
      "asc ''ok''" "[]" 0]
  note uncached = cache_holds_remote_results_only[of _ _ _
      test_analyzer "new_world answers_ok" _ _ test_lib "Suc 0" "asc ''ok''" "[]" _
      "Inr remote_result" "(new_world answers_ok)\<lparr>posts := 1, trace := [Post]\<rparr>"
      "test_analyzer\<lparr>request_count := 1\<rparr>"]
  note retry = cache_holds_remote_results_only[of _ _ _
      test_analyzer "new_world answers_ok" _ _ test_lib "Suc 0" "asc ''ok''" "[]" _
      "Inr (remote_result_at second)"
      "(new_world answers_ok)\<lparr>clock := second, posts := 1, trace := [Sleep 1, Post]\<rparr>"
      "test_analyzer\<lparr>request_count := 1\<rparr>" "[0, 1]"]
  note limited = cache_holds_remote_results_only[of _ _ _
      test_analyzer "new_world limited_then_ok" _ _ test_lib "Suc (Suc 0)" "asc ''ok''" "[]" True
      "Inr (remote_result_at (3 * second))"
      "(new_world limited_then_ok)\<lparr>clock := 3 * second, posts := 2,
          trace := [Post, Sleep 2, Sleep 1, Post]\<rparr>"
      "test_analyzer\<lparr>request_count := 2\<rparr>" _ None]
  from first have inv0: "cache_inv test_analyzer" by (simp add: test_analyzer_def)
  from first inv0 ok_run have inv1: "cache_inv stored_analyzer" by blast
  have entry: "cache stored_analyzer ok_key = Some ?e" by (simp add: stored_analyzer_fields)
  from stored inv1 entry
  have differ: "remote_result \<noteq> create_basic_fallback (asc ''ok'') []"
    "remote_result \<noteq> create_enhanced_fallback test_lib 0 (asc ''ok'') []"
    by simp_all
  from stored inv1
  have ops: "cache_inv (snd (save_cache stored_world stored_analyzer))"
    "cache_inv (snd (snd (clear_cache (Some 1) stored_world stored_analyzer)))"
    "cache_inv (enable_cache False stored_analyzer)"
    by blast+
  from uncached uncached_run
  have same1: "cache (test_analyzer\<lparr>request_count := 1\<rparr>) = cache test_analyzer" by blast
  from retry retry_level_run
  have same1': "cache (test_analyzer\<lparr>request_count := 1\<rparr>) = cache test_analyzer" by blast
  have srv: "server (new_world limited_then_ok) (posts (new_world limited_then_ok)) = Response 429 None"
    by (simp add: new_world_def limited_then_ok_def)
  from limited srv retried_run
  have same2: "cache (test_analyzer\<lparr>request_count := 2\<rparr>) = cache test_analyzer" by blast
  from inv0 ok_run inv1 entry differ ops uncached_run same1 retry_level_run srv retried_run
    remote_result_at_is_fallback[of "3 * second"] same2
  show ?thesis by (intro conjI)
qed

end
